theory Spec2Isabelle
  imports Main "HOL-Library.Word"
begin

section \<open>The handler-adaptation layer of XrdCl (XrdClOperationHandlers.hh)\<close>

text \<open>
  The header defines self-deleting completion handlers. Every handler lives on the C++ heap,
  receives raw pointers to a status, a response and a host list, calls code supplied by the
  caller and then deletes what it owns. The embedding therefore works on an explicit store:
  a partial map from addresses to objects, a bump allocator for \<open>new\<close>, and a trace that
  records, in program order, every call that leaves the header (a caller-supplied callable, a
  wrapped handler, the synchronous \<open>File::Stat\<close>) and every \<open>delete\<close> that frees an object.
  Undefined behaviour of the C++ (a member call through a null pointer, a \<open>delete\<close> of an
  address that holds no object) and the exceptions that the library calls can throw are values
  of the type \<open>fault\<close>.
\<close>

subsection \<open>Addresses and statuses\<close>

text \<open>
  The four static members called \<open>nullref\<close> (lines 274/318, 367/374, 422/428 and 477/483 of
  the header) have addresses of their own; every other object has a heap address.
\<close>

datatype addr =
    Heap nat
  | FunctionWrapper_nullref
  | ForwardingFunctionWrapper_nullref
  | ExOpenFuncWrapper_nullref
  | ForwardingExOpenFuncWrapper_nullref

text \<open>A raw pointer; \<open>None\<close> is \<open>nullptr\<close>.\<close>

type_synonym ptr = "addr option"

text \<open>
  Modelled from the spec: the class \<open>XRootDStatus\<close> is declared in XrdClXRootDResponses.hh
  and XrdClStatus.hh, which are not among the sources. Section 3 describes a status as a
  success/failure code with a message. The first two fields are the constructor arguments
  used at line 570.
\<close>

record XRootDStatus =
  status :: "16 word"
  code :: "16 word"
  errNo :: "32 word"
  message :: string

text \<open>
  Modelled from the spec: the constants \<open>stOK\<close>, \<open>stError\<close> and \<open>errPipelineFailed\<close> of
  XrdClStatus.hh, which is not among the sources. The spec gives no numbers: section 4.7
  speaks of a fixed "pipeline aborted" failure value, which line 570 builds as
  \<open>XRootDStatus( stError, errPipelineFailed )\<close>. No theorem below depends on the number chosen for \<open>errPipelineFailed\<close>, and of
  \<open>stError\<close> only its difference from \<open>stOK\<close> is used.
\<close>

definition stOK :: "16 word" where
  "stOK = 0"

definition stError :: "16 word" where
  "stError = 1"

definition errPipelineFailed :: "16 word" where
  "errPipelineFailed = 17"

text \<open>
  Modelled from the spec: the constructor \<open>XRootDStatus( st, code )\<close> and the member \<open>IsOK\<close>,
  which tells a success status from a failure status (section 3).
\<close>

definition XRootDStatus_ctor :: "16 word \<Rightarrow> 16 word \<Rightarrow> XRootDStatus" where
  "XRootDStatus_ctor st c = \<lparr>status = st, code = c, errNo = 0, message = []\<rparr>"

definition IsOK :: "XRootDStatus \<Rightarrow> bool" where
  "IsOK s = (status s = stOK)"

subsection \<open>Exceptions and the shared state of a promise\<close>

text \<open>
  \<open>PipelineException\<close> (lines 488-539) wraps one status; \<open>GetError\<close> returns it. The second
  constructor is the \<open>std::future_error\<close> that the destructor of an unsatisfied
  \<open>std::promise\<close> stores.
\<close>

datatype exn =
    PipelineException (GetError: XRootDStatus)
  | Broken_promise

text \<open>
  The state shared by a \<open>std::promise\<close> and its \<open>std::future\<close>. \<open>Ready None\<close> is the
  completion of a \<open>std::promise<void>\<close>, which carries no value.
\<close>

datatype 'v shared_state =
    Not_ready
  | Ready "'v option"
  | Failed exn

text \<open>What a thread calling \<open>get\<close> on the future observes.\<close>

datatype 'v wait_result =
    Blocks
  | Returns "'v option"
  | Throws exn

subsection \<open>Objects\<close>

type_synonym callable = nat

type_synonym type_tag = nat

text \<open>The members \<open>prms\<close> and \<open>called\<close> of \<open>FutureWrapperBase\<close> (lines 589 and 594).\<close>

datatype FutureWrapperBase = FutureWrapperBase (prms: addr) (called: bool)

text \<open>
  The dynamic class of a handler with the members the class adds to \<open>ForwardingHandler\<close>.
  \<open>FutureWrapper_void_cls\<close> is the specialisation \<open>FutureWrapper<void>\<close>.
\<close>

datatype handler_class =
    ForwardingHandler_cls
  | WrappingHandler_cls (handler: ptr)
  | SimpleFunctionWrapper_cls callable
  | FunctionWrapper_cls callable
  | SimpleForwardingFunctionWrapper_cls callable
  | ForwardingFunctionWrapper_cls callable
  | ExOpenFuncWrapper_cls addr callable
  | ForwardingExOpenFuncWrapper_cls addr callable
  | FutureWrapper_cls FutureWrapperBase
  | FutureWrapper_void_cls FutureWrapperBase

text \<open>
  Modelled from the spec: \<open>AnyObject\<close>, \<open>HostList\<close>, \<open>ArgsContainer\<close>, \<open>File\<close> and
  \<open>ResponseHandler\<close> are declared in headers that are not among the sources. The type below
  lists everything that can sit at an address. A value of the type variable \<open>'v\<close> is a
  typed payload: a response of type \<open>ResponseType\<close>, a \<open>StatInfo\<close>, a forwarded argument.
  \<^item> \<open>AnyObjectObj p\<close> is the outcome's payload holder of section 3: it owns the typed
    response at \<open>p\<close>, or holds nothing when \<open>p\<close> is null.
  \<^item> \<open>ArgsContainerObj m\<close> is the forwarding container of sections 3 and 4.1: a mapping from
    a (type tag, bucket) pair to a value.
  \<^item> \<open>FileObj st r\<close> is a file whose synchronous metadata fetch returns the status \<open>st\<close> and,
    when \<open>r\<close> is \<open>Some v\<close>, allocates a result object holding \<open>v\<close> (section 4.6: the fetch
    "allocates its own result object"); with \<open>r = None\<close> it allocates nothing.
  \<^item> \<open>ResponseHandlerObj\<close> is a caller's handler that is not a \<open>ForwardingHandler\<close>.
  \<^item> \<open>FutureObj p\<close> is a caller's \<open>std::future\<close> variable referring to the shared state at
    \<open>p\<close>.
  A handler object has the member \<open>container\<close> of \<open>ForwardingHandler\<close> (line 98) and its
  dynamic class.
\<close>

datatype 'v obj =
    StatusObj XRootDStatus
  | AnyObjectObj ptr
  | ValueObj 'v
  | HostListObj "string list"
  | ArgsContainerObj "type_tag \<times> int \<Rightarrow> 'v option"
  | SharedStateObj "'v shared_state"
  | FutureObj ptr
  | FileObj XRootDStatus "'v option"
  | ResponseHandlerObj
  | HandlerObj ptr handler_class

text \<open>
  Modelled from the spec: \<open>OperationContext\<close> is declared in a header that is not among the
  sources. Section 3: "a non-owning view borrowing a share of a Forwarding Container's
  ownership"; line 108 constructs it from the handler's container.
\<close>

datatype OperationContext = OperationContext (container_of: ptr)

subsection \<open>The store and the trace\<close>

text \<open>
  An argument of a call that leaves the header. A C++ reference is passed as the pointer it
  is bound to, together with the object found there at the time of the call.
\<close>

datatype 'v arg =
    Ref ptr "'v obj option"
  | Ctx OperationContext

datatype 'v event =
    Call callable "'v arg list"
  | Forward_HandleResponse ptr ptr ptr
  | Forward_HandleResponseWithHosts ptr ptr ptr ptr
  | Stat addr
  | Delete addr

record 'v world =
  mem :: "addr \<Rightarrow> 'v obj option"
  next_addr :: nat
  trace :: "'v event list"

datatype fault =
    Null_dereference
  | Invalid_access
  | Invalid_delete
  | Future_error
  | Logic_error

text \<open>Sequencing of a step that can fault with its continuation.\<close>

definition seq :: "fault + 'a \<Rightarrow> ('a \<Rightarrow> fault + 'b) \<Rightarrow> fault + 'b" where
  "seq m f = (case m of Inl e \<Rightarrow> Inl e | Inr x \<Rightarrow> f x)"

text \<open>\<open>new\<close>: the next unused heap address receives the object.\<close>

definition new_obj :: "'v world \<Rightarrow> 'v obj \<Rightarrow> addr \<times> 'v world" where
  "new_obj w x =
     (Heap (next_addr w),
      w\<lparr>mem := (mem w)(Heap (next_addr w) \<mapsto> x), next_addr := Suc (next_addr w)\<rparr>)"

definition log_event :: "'v world \<Rightarrow> 'v event \<Rightarrow> 'v world" where
  "log_event w e = w\<lparr>trace := trace w @ [e]\<rparr>"

text \<open>
  Releasing the storage of one heap object. Freeing an address that holds no object (a
  double free) or a static object is undefined in C++.
\<close>

definition free_addr :: "'v world \<Rightarrow> addr \<Rightarrow> fault + 'v world" where
  "free_addr w a =
     (case a of
        Heap n \<Rightarrow>
          (if mem w a = None then Inl Invalid_delete
           else Inr (w\<lparr>mem := (mem w)(a := None), trace := trace w @ [Delete a]\<rparr>))
      | _ \<Rightarrow> Inl Invalid_delete)"

text \<open>
  \<open>delete p\<close> for an object without owned parts (a status, a host list, a \<open>StatInfo\<close>);
  \<open>delete\<close> of a null pointer does nothing.
\<close>

definition delete_ptr :: "'v world \<Rightarrow> ptr \<Rightarrow> fault + 'v world" where
  "delete_ptr w p = (case p of None \<Rightarrow> Inr w | Some a \<Rightarrow> free_addr w a)"

text \<open>
  Modelled from the spec: \<open>delete response\<close> runs the destructor of \<open>AnyObject\<close>, which is not
  among the sources. Section 4.5, step 4: "delete the outcome and its payload".
\<close>

definition delete_AnyObject :: "'v world \<Rightarrow> ptr \<Rightarrow> fault + 'v world" where
  "delete_AnyObject w p =
     (case p of
        None \<Rightarrow> Inr w
      | Some a \<Rightarrow>
          (case mem w a of
             Some (AnyObjectObj h) \<Rightarrow> seq (delete_ptr w h) (\<lambda>w1. free_addr w1 a)
           | _ \<Rightarrow> Inl Invalid_delete))"

text \<open>\<open>status->IsOK()\<close> and every other read through the status pointer.\<close>

definition read_status :: "'v world \<Rightarrow> ptr \<Rightarrow> fault + XRootDStatus" where
  "read_status w p =
     (case p of
        None \<Rightarrow> Inl Null_dereference
      | Some a \<Rightarrow> (case mem w a of Some (StatusObj s) \<Rightarrow> Inr s | _ \<Rightarrow> Inl Invalid_access))"

text \<open>
  Modelled from the spec: \<open>response->Get( res )\<close> of \<open>AnyObject\<close> stores the pointer to the
  typed response held by the payload into \<open>res\<close> (section 4.5, step 1: "extract the typed
  response from the outcome payload").
\<close>

definition AnyObject_Get :: "'v world \<Rightarrow> ptr \<Rightarrow> fault + ptr" where
  "AnyObject_Get w p =
     (case p of
        None \<Rightarrow> Inl Null_dereference
      | Some a \<Rightarrow> (case mem w a of Some (AnyObjectObj h) \<Rightarrow> Inr h | _ \<Rightarrow> Inl Invalid_access))"

text \<open>Binding a reference parameter to \<open>*p\<close>.\<close>

definition ref :: "'v world \<Rightarrow> ptr \<Rightarrow> 'v arg" where
  "ref w p = Ref p (case p of None \<Rightarrow> None | Some a \<Rightarrow> mem w a)"

text \<open>Invoking the stored \<open>std::function\<close>.\<close>

definition call :: "'v world \<Rightarrow> callable \<Rightarrow> 'v arg list \<Rightarrow> 'v world" where
  "call w f args = log_event w (Call f args)"

subsection \<open>The forwarding container and the operation context\<close>

text \<open>
  Modelled from the spec: \<open>ArgsContainer::SetArg\<close> is declared in a header that is not among
  the sources. Section 3: "a mapping from a (type-tag, integer bucket) pair to an owned
  value. Keys are unique per (type, bucket); re-setting a key overwrites."
\<close>

definition ArgsContainer_SetArg ::
  "(type_tag \<times> int \<Rightarrow> 'v option) \<Rightarrow> type_tag \<Rightarrow> 'v \<Rightarrow> int \<Rightarrow> (type_tag \<times> int \<Rightarrow> 'v option)" where
  "ArgsContainer_SetArg m T v bucket = m((T, bucket) \<mapsto> v)"

text \<open>
  Modelled from the spec: \<open>ArgsContainer::GetArg\<close>. Section 4.1: "\<open>get(type, bucket)\<close> returns
  the stored value or fails with a missing-key error."
\<close>

definition ArgsContainer_GetArg ::
  "(type_tag \<times> int \<Rightarrow> 'v option) \<Rightarrow> type_tag \<Rightarrow> int \<Rightarrow> fault + 'v" where
  "ArgsContainer_GetArg m T bucket =
     (case m (T, bucket) of None \<Rightarrow> Inl Logic_error | Some v \<Rightarrow> Inr v)"

text \<open>\<open>container->SetArg<T>( value, bucket )\<close> through a shared pointer.\<close>

definition container_SetArg ::
  "'v world \<Rightarrow> ptr \<Rightarrow> type_tag \<Rightarrow> 'v \<Rightarrow> int \<Rightarrow> fault + 'v world" where
  "container_SetArg w c T v bucket =
     (case c of
        None \<Rightarrow> Inl Null_dereference
      | Some a \<Rightarrow>
          (case mem w a of
             Some (ArgsContainerObj m) \<Rightarrow>
               Inr (w\<lparr>mem := (mem w)(a \<mapsto> ArgsContainerObj (ArgsContainer_SetArg m T v bucket))\<rparr>)
           | _ \<Rightarrow> Inl Invalid_access))"

text \<open>
  Modelled from the spec: \<open>OperationContext::GetArg\<close>. Section 4.2: "thin wrapper exposing
  \<open>get<T>(bucket)\<close> delegating to the Forwarding Container it borrows".
\<close>

definition OperationContext_GetArg ::
  "'v world \<Rightarrow> OperationContext \<Rightarrow> type_tag \<Rightarrow> int \<Rightarrow> fault + 'v" where
  "OperationContext_GetArg w ctx T bucket =
     (case container_of ctx of
        None \<Rightarrow> Inl Null_dereference
      | Some a \<Rightarrow>
          (case mem w a of
             Some (ArgsContainerObj m) \<Rightarrow> ArgsContainer_GetArg m T bucket
           | _ \<Rightarrow> Inl Invalid_access))"

subsection \<open>\<open>ForwardingHandler\<close>: construction, forwarding, context (lines 37-110)\<close>

text \<open>The constructor (lines 46-49): \<open>container( new ArgsContainer() )\<close>.\<close>

definition ForwardingHandler_ctor :: "'v world \<Rightarrow> ptr \<times> 'v world" where
  "ForwardingHandler_ctor w =
     (let (c, w1) = new_obj w (ArgsContainerObj (\<lambda>k. None)) in (Some c, w1))"

text \<open>
  \<open>new K( ... )\<close> for a handler class \<open>K\<close> whose constructor does no more than initialise
  its members: the storage is obtained first, then the base constructor runs.
\<close>

definition new_handler :: "'v world \<Rightarrow> handler_class \<Rightarrow> addr \<times> 'v world" where
  "new_handler w k =
     (let a = Heap (next_addr w);
          (c, w1) = ForwardingHandler_ctor (w\<lparr>next_addr := Suc (next_addr w)\<rparr>)
      in (a, w1\<lparr>mem := (mem w1)(a \<mapsto> HandlerObj c k)\<rparr>))"

text \<open>\<open>FwdArg\<close> (lines 79-83); the bucket is \<open>1\<close> when the caller gives none.\<close>

definition ForwardingHandler_FwdArg ::
  "'v world \<Rightarrow> addr \<Rightarrow> type_tag \<Rightarrow> 'v \<Rightarrow> int \<Rightarrow> fault + 'v world" where
  "ForwardingHandler_FwdArg w this T v bucket =
     (case mem w this of
        Some (HandlerObj c k) \<Rightarrow> container_SetArg w c T v bucket
      | _ \<Rightarrow> Inl Invalid_access)"

text \<open>\<open>GetArgContainer\<close> (lines 90-93), the accessor of the pipeline engine.\<close>

definition ForwardingHandler_GetArgContainer :: "'v world \<Rightarrow> addr \<Rightarrow> fault + ptr" where
  "ForwardingHandler_GetArgContainer w this =
     (case mem w this of
        Some (HandlerObj c k) \<Rightarrow> Inr c
      | _ \<Rightarrow> Inl Invalid_access)"

text \<open>
  \<open>GetOperationContext\<close> (lines 105-109). The context object itself is a temporary owned by
  a \<open>unique_ptr\<close> local to the caller; only the container it shares is kept.
\<close>

definition ForwardingHandler_GetOperationContext ::
  "'v world \<Rightarrow> addr \<Rightarrow> fault + OperationContext" where
  "ForwardingHandler_GetOperationContext w this =
     (case mem w this of
        Some (HandlerObj c k) \<Rightarrow> Inr (OperationContext c)
      | _ \<Rightarrow> Inl Invalid_access)"

subsection \<open>Promise, future and \<open>FutureWrapperBase\<close> (lines 546-596)\<close>

definition promise_set_value :: "'v world \<Rightarrow> addr \<Rightarrow> 'v option \<Rightarrow> fault + 'v world" where
  "promise_set_value w p v =
     (case mem w p of
        Some (SharedStateObj Not_ready) \<Rightarrow> Inr (w\<lparr>mem := (mem w)(p \<mapsto> SharedStateObj (Ready v))\<rparr>)
      | Some (SharedStateObj _) \<Rightarrow> Inl Future_error
      | _ \<Rightarrow> Inl Invalid_access)"

definition promise_set_exception :: "'v world \<Rightarrow> addr \<Rightarrow> exn \<Rightarrow> fault + 'v world" where
  "promise_set_exception w p e =
     (case mem w p of
        Some (SharedStateObj Not_ready) \<Rightarrow> Inr (w\<lparr>mem := (mem w)(p \<mapsto> SharedStateObj (Failed e))\<rparr>)
      | Some (SharedStateObj _) \<Rightarrow> Inl Future_error
      | _ \<Rightarrow> Inl Invalid_access)"

text \<open>The destructor of \<open>std::promise\<close> abandons a state that is not ready.\<close>

definition promise_dtor :: "'v world \<Rightarrow> addr \<Rightarrow> fault + 'v world" where
  "promise_dtor w p =
     (case mem w p of
        Some (SharedStateObj Not_ready) \<Rightarrow>
          Inr (w\<lparr>mem := (mem w)(p \<mapsto> SharedStateObj (Failed Broken_promise))\<rparr>)
      | Some (SharedStateObj _) \<Rightarrow> Inr w
      | _ \<Rightarrow> Inl Invalid_access)"

definition wait :: "'v shared_state \<Rightarrow> 'v wait_result" where
  "wait s = (case s of Not_ready \<Rightarrow> Blocks | Ready v \<Rightarrow> Returns v | Failed e \<Rightarrow> Throws e)"

text \<open>\<open>ftr.get()\<close> on the caller's future variable.\<close>

definition future_get :: "'v world \<Rightarrow> addr \<Rightarrow> fault + 'v wait_result" where
  "future_get w ftr =
     (case mem w ftr of
        Some (FutureObj (Some p)) \<Rightarrow>
          (case mem w p of Some (SharedStateObj s) \<Rightarrow> Inr (wait s) | _ \<Rightarrow> Inl Invalid_access)
      | Some (FutureObj None) \<Rightarrow> Inl Future_error
      | _ \<Rightarrow> Inl Invalid_access)"

fun FutureWrapperBase_part :: "handler_class \<Rightarrow> FutureWrapperBase option" where
  "FutureWrapperBase_part (FutureWrapper_cls b) = Some b"
| "FutureWrapperBase_part (FutureWrapper_void_cls b) = Some b"
| "FutureWrapperBase_part _ = None"

fun set_called :: "handler_class \<Rightarrow> bool \<Rightarrow> handler_class" where
  "set_called (FutureWrapper_cls b) x = FutureWrapper_cls (FutureWrapperBase (prms b) x)"
| "set_called (FutureWrapper_void_cls b) x = FutureWrapper_void_cls (FutureWrapperBase (prms b) x)"
| "set_called k x = k"

definition FutureWrapperBase_of :: "'v world \<Rightarrow> addr \<Rightarrow> fault + FutureWrapperBase" where
  "FutureWrapperBase_of w this =
     (case mem w this of
        Some (HandlerObj c k) \<Rightarrow>
          (case FutureWrapperBase_part k of Some b \<Rightarrow> Inr b | None \<Rightarrow> Inl Invalid_access)
      | _ \<Rightarrow> Inl Invalid_access)"

text \<open>
  The constructor (lines 557-560), run by \<open>new FutureWrapper<Response>( ftr )\<close>: storage,
  base constructor, the promise with a fresh shared state, \<open>called( false )\<close>, and the body
  \<open>ftr = prms.get_future()\<close>. The flag \<open>is_void\<close> selects the specialisation for \<open>void\<close>.
\<close>

definition new_FutureWrapper :: "bool \<Rightarrow> 'v world \<Rightarrow> addr \<Rightarrow> addr \<times> 'v world" where
  "new_FutureWrapper is_void w ftr =
     (let a = Heap (next_addr w);
          (c, w1) = ForwardingHandler_ctor (w\<lparr>next_addr := Suc (next_addr w)\<rparr>);
          (p, w2) = new_obj w1 (SharedStateObj Not_ready);
          b = FutureWrapperBase p False;
          k = (if is_void then FutureWrapper_void_cls b else FutureWrapper_cls b)
      in (a, w2\<lparr>mem := (mem w2)(ftr \<mapsto> FutureObj (Some p), a \<mapsto> HandlerObj c k)\<rparr>))"

text \<open>\<open>SetException\<close> (lines 580-584).\<close>

definition FutureWrapperBase_SetException ::
  "'v world \<Rightarrow> addr \<Rightarrow> XRootDStatus \<Rightarrow> fault + 'v world" where
  "FutureWrapperBase_SetException w this err =
     seq (FutureWrapperBase_of w this) (\<lambda>b.
       promise_set_exception w (prms b) (PipelineException err))"

text \<open>The destructor body (lines 567-571).\<close>

definition FutureWrapperBase_dtor :: "'v world \<Rightarrow> addr \<Rightarrow> fault + 'v world" where
  "FutureWrapperBase_dtor w this =
     seq (FutureWrapperBase_of w this) (\<lambda>b.
       if \<not> called b
       then FutureWrapperBase_SetException w this (XRootDStatus_ctor stError errPipelineFailed)
       else Inr w)"

text \<open>
  \<open>delete\<close> applied to a handler, in particular \<open>delete this\<close>: the virtual destructor of the
  dynamic class, then the release of the storage. Only the future wrappers have a destructor
  body; after it the member \<open>prms\<close> is destroyed.
\<close>

definition delete_handler :: "'v world \<Rightarrow> addr \<Rightarrow> fault + 'v world" where
  "delete_handler w this =
     (case mem w this of
        Some (HandlerObj c k) \<Rightarrow>
          (case FutureWrapperBase_part k of
             Some b \<Rightarrow>
               seq (FutureWrapperBase_dtor w this) (\<lambda>w1.
               seq (promise_dtor w1 (prms b)) (\<lambda>w2.
               free_addr w2 this))
           | None \<Rightarrow> free_addr w this)
      | _ \<Rightarrow> Inl Invalid_delete)"

subsection \<open>The plain entry point of each class\<close>

text \<open>\<open>ForwardingHandler::HandleResponse\<close> (lines 64-69).\<close>

definition ForwardingHandler_HandleResponse ::
  "'v world \<Rightarrow> addr \<Rightarrow> ptr \<Rightarrow> ptr \<Rightarrow> fault + 'v world" where
  "ForwardingHandler_HandleResponse w this stp rsp =
     seq (delete_ptr w stp) (\<lambda>w1.
     seq (delete_AnyObject w1 rsp) (\<lambda>w2.
     delete_handler w2 this))"

text \<open>
  \<open>WrappingHandler::HandleResponse\<close> (lines 178-182). The wrapped handler is code of the
  caller: the call is recorded, with the pointers it receives.
\<close>

definition WrappingHandler_HandleResponse ::
  "'v world \<Rightarrow> addr \<Rightarrow> ptr \<Rightarrow> ptr \<Rightarrow> fault + 'v world" where
  "WrappingHandler_HandleResponse w this stp rsp =
     (case mem w this of
        Some (HandlerObj c (WrappingHandler_cls h)) \<Rightarrow>
          (if h = None then Inl Null_dereference
           else delete_handler (log_event w (Forward_HandleResponse h stp rsp)) this)
      | _ \<Rightarrow> Inl Invalid_access)"

text \<open>\<open>SimpleFunctionWrapper::HandleResponse\<close> (lines 213-219).\<close>

definition SimpleFunctionWrapper_HandleResponse ::
  "'v world \<Rightarrow> addr \<Rightarrow> ptr \<Rightarrow> ptr \<Rightarrow> fault + 'v world" where
  "SimpleFunctionWrapper_HandleResponse w this stp rsp =
     (case mem w this of
        Some (HandlerObj c (SimpleFunctionWrapper_cls f)) \<Rightarrow>
          seq (Inr (call w f [ref w stp])) (\<lambda>w1.
          seq (delete_ptr w1 stp) (\<lambda>w2.
          seq (delete_AnyObject w2 rsp) (\<lambda>w3.
          delete_handler w3 this)))
      | _ \<Rightarrow> Inl Invalid_access)"

text \<open>\<open>FunctionWrapper<ResponseType>::HandleResponse\<close> (lines 252-263).\<close>

definition FunctionWrapper_HandleResponse ::
  "'v world \<Rightarrow> addr \<Rightarrow> ptr \<Rightarrow> ptr \<Rightarrow> fault + 'v world" where
  "FunctionWrapper_HandleResponse w this stp rsp =
     (case mem w this of
        Some (HandlerObj c (FunctionWrapper_cls f)) \<Rightarrow>
          seq (read_status w stp) (\<lambda>s.
          seq (if IsOK s then AnyObject_Get w rsp else Inr (Some FunctionWrapper_nullref)) (\<lambda>res.
          seq (Inr (call w f [ref w stp, ref w res])) (\<lambda>w1.
          seq (delete_ptr w1 stp) (\<lambda>w2.
          seq (delete_AnyObject w2 rsp) (\<lambda>w3.
          delete_handler w3 this)))))
      | _ \<Rightarrow> Inl Invalid_access)"

text \<open>\<open>SimpleForwardingFunctionWrapper::HandleResponse\<close> (lines 298-305).\<close>

definition SimpleForwardingFunctionWrapper_HandleResponse ::
  "'v world \<Rightarrow> addr \<Rightarrow> ptr \<Rightarrow> ptr \<Rightarrow> fault + 'v world" where
  "SimpleForwardingFunctionWrapper_HandleResponse w this stp rsp =
     (case mem w this of
        Some (HandlerObj c (SimpleForwardingFunctionWrapper_cls f)) \<Rightarrow>
          seq (ForwardingHandler_GetOperationContext w this) (\<lambda>paramsContainerWrapper.
          seq (Inr (call w f [ref w stp, Ctx paramsContainerWrapper])) (\<lambda>w1.
          seq (delete_ptr w1 stp) (\<lambda>w2.
          seq (delete_AnyObject w2 rsp) (\<lambda>w3.
          delete_handler w3 this))))
      | _ \<Rightarrow> Inl Invalid_access)"

text \<open>\<open>ForwardingFunctionWrapper<ResponseType>::HandleResponse\<close> (lines 343-355).\<close>

definition ForwardingFunctionWrapper_HandleResponse ::
  "'v world \<Rightarrow> addr \<Rightarrow> ptr \<Rightarrow> ptr \<Rightarrow> fault + 'v world" where
  "ForwardingFunctionWrapper_HandleResponse w this stp rsp =
     (case mem w this of
        Some (HandlerObj c (ForwardingFunctionWrapper_cls f)) \<Rightarrow>
          seq (read_status w stp) (\<lambda>s.
          seq (if IsOK s then AnyObject_Get w rsp
               else Inr (Some ForwardingFunctionWrapper_nullref)) (\<lambda>res.
          seq (ForwardingHandler_GetOperationContext w this) (\<lambda>paramsContainerWrapper.
          seq (Inr (call w f [ref w stp, ref w res, Ctx paramsContainerWrapper])) (\<lambda>w1.
          seq (delete_ptr w1 stp) (\<lambda>w2.
          seq (delete_AnyObject w2 rsp) (\<lambda>w3.
          delete_handler w3 this))))))
      | _ \<Rightarrow> Inl Invalid_access)"

text \<open>
  Modelled from the spec: \<open>f.Stat( false, info )\<close> is the synchronous \<open>File::Stat\<close> of
  XrdClFile.hh, which is not among the sources. Section 4.6: "the follow-up fetch, which
  allocates its own result object". The call is recorded; it returns its own status and the
  new value of the pointer passed by reference, which is left as it was when the fetch
  allocates nothing.
\<close>

definition File_Stat :: "'v world \<Rightarrow> addr \<Rightarrow> ptr \<Rightarrow> fault + (XRootDStatus \<times> ptr \<times> 'v world)" where
  "File_Stat w f info =
     (case mem w f of
        Some (FileObj st r) \<Rightarrow>
          (case r of
             None \<Rightarrow> Inr (st, info, log_event w (Stat f))
           | Some v \<Rightarrow>
               (let (a, w1) = new_obj (log_event w (Stat f)) (ValueObj v)
                in Inr (st, Some a, w1)))
      | _ \<Rightarrow> Inl Invalid_access)"

text \<open>
  \<open>ExOpenFuncWrapper::HandleResponse\<close> (lines 398-410). The status returned by \<open>Stat\<close> is
  dropped, as in the source.
\<close>

definition ExOpenFuncWrapper_HandleResponse ::
  "'v world \<Rightarrow> addr \<Rightarrow> ptr \<Rightarrow> ptr \<Rightarrow> fault + 'v world" where
  "ExOpenFuncWrapper_HandleResponse w this stp rsp =
     (case mem w this of
        Some (HandlerObj c (ExOpenFuncWrapper_cls f fn)) \<Rightarrow>
          seq (read_status w stp) (\<lambda>s.
          seq (if IsOK s
               then seq (File_Stat w f None) (\<lambda>(st, info, w1). Inr (info, w1))
               else Inr (Some ExOpenFuncWrapper_nullref, w)) (\<lambda>(info, w1).
          seq (Inr (call w1 fn [ref w1 stp, ref w1 info])) (\<lambda>w2.
          seq (if info \<noteq> Some ExOpenFuncWrapper_nullref then delete_ptr w2 info else Inr w2) (\<lambda>w3.
          seq (delete_ptr w3 stp) (\<lambda>w4.
          seq (delete_AnyObject w4 rsp) (\<lambda>w5.
          delete_handler w5 this))))))
      | _ \<Rightarrow> Inl Invalid_access)"

text \<open>\<open>ForwardingExOpenFuncWrapper::HandleResponse\<close> (lines 452-465).\<close>

definition ForwardingExOpenFuncWrapper_HandleResponse ::
  "'v world \<Rightarrow> addr \<Rightarrow> ptr \<Rightarrow> ptr \<Rightarrow> fault + 'v world" where
  "ForwardingExOpenFuncWrapper_HandleResponse w this stp rsp =
     (case mem w this of
        Some (HandlerObj c (ForwardingExOpenFuncWrapper_cls f fn)) \<Rightarrow>
          seq (read_status w stp) (\<lambda>s.
          seq (if IsOK s
               then seq (File_Stat w f None) (\<lambda>(st, info, w1). Inr (info, w1))
               else Inr (Some ForwardingExOpenFuncWrapper_nullref, w)) (\<lambda>(info, w1).
          seq (ForwardingHandler_GetOperationContext w1 this) (\<lambda>paramsContainerWrapper.
          seq (Inr (call w1 fn [ref w1 stp, ref w1 info, Ctx paramsContainerWrapper])) (\<lambda>w2.
          seq (if info \<noteq> Some ForwardingExOpenFuncWrapper_nullref
               then delete_ptr w2 info else Inr w2) (\<lambda>w3.
          seq (delete_ptr w3 stp) (\<lambda>w4.
          seq (delete_AnyObject w4 rsp) (\<lambda>w5.
          delete_handler w5 this)))))))
      | _ \<Rightarrow> Inl Invalid_access)"

text \<open>
  \<open>FutureWrapper<Response>::HandleResponse\<close> (lines 621-637). \<open>std::move( *resp )\<close> reads the
  typed response through \<open>resp\<close>, which is null when the payload holds nothing.
\<close>

definition read_value :: "'v world \<Rightarrow> ptr \<Rightarrow> fault + 'v" where
  "read_value w p =
     (case p of
        None \<Rightarrow> Inl Null_dereference
      | Some a \<Rightarrow> (case mem w a of Some (ValueObj v) \<Rightarrow> Inr v | _ \<Rightarrow> Inl Invalid_access))"

definition write_called :: "'v world \<Rightarrow> addr \<Rightarrow> bool \<Rightarrow> fault + 'v world" where
  "write_called w this x =
     (case mem w this of
        Some (HandlerObj c k) \<Rightarrow> Inr (w\<lparr>mem := (mem w)(this \<mapsto> HandlerObj c (set_called k x))\<rparr>)
      | _ \<Rightarrow> Inl Invalid_access)"

definition FutureWrapper_HandleResponse ::
  "'v world \<Rightarrow> addr \<Rightarrow> ptr \<Rightarrow> ptr \<Rightarrow> fault + 'v world" where
  "FutureWrapper_HandleResponse w this stp rsp =
     (case mem w this of
        Some (HandlerObj c (FutureWrapper_cls b)) \<Rightarrow>
          seq (write_called w this True) (\<lambda>w1.
          seq (read_status w1 stp) (\<lambda>s.
          seq (if IsOK s
               then seq (AnyObject_Get w1 rsp) (\<lambda>resp.
                    seq (read_value w1 resp) (\<lambda>v.
                    promise_set_value w1 (prms b) (Some v)))
               else FutureWrapperBase_SetException w1 this s) (\<lambda>w2.
          seq (delete_ptr w2 stp) (\<lambda>w3.
          seq (delete_AnyObject w3 rsp) (\<lambda>w4.
          delete_handler w4 this)))))
      | _ \<Rightarrow> Inl Invalid_access)"

text \<open>\<open>FutureWrapper<void>::HandleResponse\<close> (lines 661-677).\<close>

definition FutureWrapper_void_HandleResponse ::
  "'v world \<Rightarrow> addr \<Rightarrow> ptr \<Rightarrow> ptr \<Rightarrow> fault + 'v world" where
  "FutureWrapper_void_HandleResponse w this stp rsp =
     (case mem w this of
        Some (HandlerObj c (FutureWrapper_void_cls b)) \<Rightarrow>
          seq (write_called w this True) (\<lambda>w1.
          seq (read_status w1 stp) (\<lambda>s.
          seq (if IsOK s
               then promise_set_value w1 (prms b) None
               else FutureWrapperBase_SetException w1 this s) (\<lambda>w2.
          seq (delete_ptr w2 stp) (\<lambda>w3.
          seq (delete_AnyObject w3 rsp) (\<lambda>w4.
          delete_handler w4 this)))))
      | _ \<Rightarrow> Inl Invalid_access)"

subsection \<open>Virtual dispatch and the entry point with hosts\<close>

text \<open>The virtual call \<open>HandleResponse( status, response )\<close> on a handler.\<close>

definition HandleResponse :: "'v world \<Rightarrow> addr \<Rightarrow> ptr \<Rightarrow> ptr \<Rightarrow> fault + 'v world" where
  "HandleResponse w this stp rsp =
     (case mem w this of
        Some (HandlerObj c k) \<Rightarrow>
          (case k of
             ForwardingHandler_cls \<Rightarrow> ForwardingHandler_HandleResponse w this stp rsp
           | WrappingHandler_cls h \<Rightarrow> WrappingHandler_HandleResponse w this stp rsp
           | SimpleFunctionWrapper_cls f \<Rightarrow> SimpleFunctionWrapper_HandleResponse w this stp rsp
           | FunctionWrapper_cls f \<Rightarrow> FunctionWrapper_HandleResponse w this stp rsp
           | SimpleForwardingFunctionWrapper_cls f \<Rightarrow>
               SimpleForwardingFunctionWrapper_HandleResponse w this stp rsp
           | ForwardingFunctionWrapper_cls f \<Rightarrow>
               ForwardingFunctionWrapper_HandleResponse w this stp rsp
           | ExOpenFuncWrapper_cls f fn \<Rightarrow> ExOpenFuncWrapper_HandleResponse w this stp rsp
           | ForwardingExOpenFuncWrapper_cls f fn \<Rightarrow>
               ForwardingExOpenFuncWrapper_HandleResponse w this stp rsp
           | FutureWrapper_cls b \<Rightarrow> FutureWrapper_HandleResponse w this stp rsp
           | FutureWrapper_void_cls b \<Rightarrow> FutureWrapper_void_HandleResponse w this stp rsp)
      | _ \<Rightarrow> Inl Invalid_access)"

text \<open>\<open>ForwardingHandler::HandleResponseWithHosts\<close> (lines 54-59).\<close>

definition ForwardingHandler_HandleResponseWithHosts ::
  "'v world \<Rightarrow> addr \<Rightarrow> ptr \<Rightarrow> ptr \<Rightarrow> ptr \<Rightarrow> fault + 'v world" where
  "ForwardingHandler_HandleResponseWithHosts w this stp rsp hostList =
     seq (delete_ptr w hostList) (\<lambda>w1.
     HandleResponse w1 this stp rsp)"

text \<open>\<open>WrappingHandler::HandleResponseWithHosts\<close> (lines 168-173).\<close>

definition WrappingHandler_HandleResponseWithHosts ::
  "'v world \<Rightarrow> addr \<Rightarrow> ptr \<Rightarrow> ptr \<Rightarrow> ptr \<Rightarrow> fault + 'v world" where
  "WrappingHandler_HandleResponseWithHosts w this stp rsp hostList =
     (case mem w this of
        Some (HandlerObj c (WrappingHandler_cls h)) \<Rightarrow>
          (if h = None then Inl Null_dereference
           else delete_handler
                  (log_event w (Forward_HandleResponseWithHosts h stp rsp hostList)) this)
      | _ \<Rightarrow> Inl Invalid_access)"

text \<open>
  The virtual call \<open>HandleResponseWithHosts( status, response, hostList )\<close>: only
  \<open>WrappingHandler\<close> overrides it.
\<close>

definition HandleResponseWithHosts ::
  "'v world \<Rightarrow> addr \<Rightarrow> ptr \<Rightarrow> ptr \<Rightarrow> ptr \<Rightarrow> fault + 'v world" where
  "HandleResponseWithHosts w this stp rsp hostList =
     (case mem w this of
        Some (HandlerObj c k) \<Rightarrow>
          (case k of
             WrappingHandler_cls h \<Rightarrow> WrappingHandler_HandleResponseWithHosts w this stp rsp hostList
           | _ \<Rightarrow> ForwardingHandler_HandleResponseWithHosts w this stp rsp hostList)
      | _ \<Rightarrow> Inl Invalid_access)"

subsection \<open>The factories (lines 686-819)\<close>

text \<open>
  The five overloads of \<open>RespBase<Response>::Create\<close>, selected by the static type of the
  argument. The flag is true in \<open>RespBase<void>\<close>.
\<close>

datatype base_arg =
    ResponseHandler_ptr ptr
  | ResponseHandler_ref addr
  | ForwardingHandler_ptr ptr
  | ForwardingHandler_ref addr
  | Future_ref addr

fun RespBase_Create :: "bool \<Rightarrow> base_arg \<Rightarrow> 'v world \<Rightarrow> ptr \<times> 'v world" where
  "RespBase_Create is_void (ResponseHandler_ptr hdlr) w =
     (let (a, w1) = new_handler w (WrappingHandler_cls hdlr) in (Some a, w1))"
| "RespBase_Create is_void (ResponseHandler_ref hdlr) w =
     (let (a, w1) = new_handler w (WrappingHandler_cls (Some hdlr)) in (Some a, w1))"
| "RespBase_Create is_void (ForwardingHandler_ptr hdlr) w = (hdlr, w)"
| "RespBase_Create is_void (ForwardingHandler_ref hdlr) w = (Some hdlr, w)"
| "RespBase_Create is_void (Future_ref ftr) w =
     (let (a, w1) = new_FutureWrapper is_void w ftr in (Some a, w1))"

text \<open>\<open>Resp<Response>::Create\<close> (lines 751-782).\<close>

datatype resp_arg =
    Function_status_response callable
  | Function_status_response_context callable
  | Base base_arg

fun Resp_Create :: "resp_arg \<Rightarrow> 'v world \<Rightarrow> ptr \<times> 'v world" where
  "Resp_Create (Function_status_response func) w =
     (let (a, w1) = new_handler w (FunctionWrapper_cls func) in (Some a, w1))"
| "Resp_Create (Function_status_response_context func) w =
     (let (a, w1) = new_handler w (ForwardingFunctionWrapper_cls func) in (Some a, w1))"
| "Resp_Create (Base x) w = RespBase_Create False x w"

text \<open>\<open>Resp<void>::Create\<close> (lines 789-819).\<close>

datatype resp_void_arg =
    Function_status callable
  | Function_status_context callable
  | Base_void base_arg

fun Resp_void_Create :: "resp_void_arg \<Rightarrow> 'v world \<Rightarrow> ptr \<times> 'v world" where
  "Resp_void_Create (Function_status func) w =
     (let (a, w1) = new_handler w (SimpleFunctionWrapper_cls func) in (Some a, w1))"
| "Resp_void_Create (Function_status_context func) w =
     (let (a, w1) = new_handler w (SimpleForwardingFunctionWrapper_cls func) in (Some a, w1))"
| "Resp_void_Create (Base_void x) w = RespBase_Create True x w"

subsection \<open>Notions used in the statements\<close>

text \<open>
  The objects that \<open>delete response\<close> frees, in the order in which it frees them: nothing
  for a null pointer, the payload holder alone when it holds nothing, otherwise the typed
  response and then its holder.
\<close>

fun owned_by_response :: "'v world \<Rightarrow> ptr \<Rightarrow> addr list option" where
  "owned_by_response w None = Some []"
| "owned_by_response w (Some (Heap j)) =
     (case mem w (Heap j) of
        Some (AnyObjectObj None) \<Rightarrow> Some [Heap j]
      | Some (AnyObjectObj (Some (Heap k))) \<Rightarrow>
          (case mem w (Heap k) of Some (ValueObj x) \<Rightarrow> Some [Heap k, Heap j] | _ \<Rightarrow> None)
      | _ \<Rightarrow> None)"
| "owned_by_response w (Some _) = None"

text \<open>The world after the objects at the addresses \<open>D\<close> have been freed, in that order.\<close>

definition disposed :: "'v world \<Rightarrow> addr list \<Rightarrow> 'v world" where
  "disposed w D = w\<lparr>mem := mem w |` (- set D), trace := trace w @ map Delete D\<rparr>"

text \<open>The events that are invocations of the metadata fetch.\<close>

fun is_Stat :: "'v event \<Rightarrow> bool" where
  "is_Stat (Stat f) = True"
| "is_Stat _ = False"

section \<open>Basic facts about the store\<close>

lemma seq_Inr [simp]: "seq (Inr x) f = f x"
  by (simp add: seq_def)

lemma seq_Inl [simp]: "seq (Inl e) f = Inl e"
  by (simp add: seq_def)

lemma disposed_Nil [simp]: "disposed w [] = w"
  by (simp add: disposed_def restrict_map_def)

lemma disposed_disposed [simp]: "disposed (disposed w A) B = disposed w (A @ B)"
  by (auto simp: disposed_def restrict_map_def fun_eq_iff)

lemma mem_disposed [simp]: "mem (disposed w D) a = (if a \<in> set D then None else mem w a)"
  by (simp add: disposed_def restrict_map_def)

lemma next_addr_disposed [simp]: "next_addr (disposed w D) = next_addr w"
  by (simp add: disposed_def)

lemma trace_disposed [simp]: "trace (disposed w D) = trace w @ map Delete D"
  by (simp add: disposed_def)

lemma mem_log_event [simp]: "mem (log_event w e) = mem w"
  by (simp add: log_event_def)

lemma next_addr_log_event [simp]: "next_addr (log_event w e) = next_addr w"
  by (simp add: log_event_def)

lemma trace_log_event [simp]: "trace (log_event w e) = trace w @ [e]"
  by (simp add: log_event_def)

lemma mem_call [simp]: "mem (call w f args) = mem w"
  by (simp add: call_def)

lemma next_addr_call [simp]: "next_addr (call w f args) = next_addr w"
  by (simp add: call_def)

lemma trace_call [simp]: "trace (call w f args) = trace w @ [Call f args]"
  by (simp add: call_def)

lemma free_addr_live:
  "mem w (Heap n) = Some x \<Longrightarrow> free_addr w (Heap n) = Inr (disposed w [Heap n])"
  by (auto simp: free_addr_def disposed_def restrict_map_def fun_eq_iff)

lemma delete_ptr_live:
  "mem w (Heap n) = Some x \<Longrightarrow> delete_ptr w (Some (Heap n)) = Inr (disposed w [Heap n])"
  by (simp add: delete_ptr_def free_addr_live)

lemma read_status_live:
  "mem w (Heap i) = Some (StatusObj s) \<Longrightarrow> read_status w (Some (Heap i)) = Inr s"
  by (simp add: read_status_def)

lemma new_handler_eq:
  "new_handler w k =
     (Heap (next_addr w),
      w\<lparr>mem := (mem w)(Heap (Suc (next_addr w)) \<mapsto> ArgsContainerObj (\<lambda>k. None),
                          Heap (next_addr w) \<mapsto> HandlerObj (Some (Heap (Suc (next_addr w)))) k),
         next_addr := Suc (Suc (next_addr w))\<rparr>)"
  by (simp add: new_handler_def ForwardingHandler_ctor_def new_obj_def Let_def)

subsection \<open>Disposing of a response\<close>

lemma owned_cases:
  assumes "owned_by_response w rsp = Some ds"
  obtains "rsp = None" "ds = []"
  | j where "rsp = Some (Heap j)" "mem w (Heap j) = Some (AnyObjectObj None)" "ds = [Heap j]"
  | j k x where "rsp = Some (Heap j)" "mem w (Heap j) = Some (AnyObjectObj (Some (Heap k)))"
      "mem w (Heap k) = Some (ValueObj x)" "ds = [Heap k, Heap j]"
  using assms
  by (cases "(w, rsp)" rule: owned_by_response.cases)
     (auto split: option.splits obj.splits addr.splits)

lemma owned_kind:
  "owned_by_response w rsp = Some ds \<Longrightarrow> a \<in> set ds \<Longrightarrow>
   (\<exists>h. mem w a = Some (AnyObjectObj h)) \<or> (\<exists>x. mem w a = Some (ValueObj x))"
  by (erule owned_cases) auto

lemma owned_frame:
  assumes "owned_by_response w rsp = Some ds"
    and "\<forall>a \<in> set ds. mem w' a = mem w a"
  shows "owned_by_response w' rsp = Some ds"
  using assms(1)
proof (cases rule: owned_cases)
  case 1
  then show ?thesis by simp
next
  case (2 j)
  with assms(2) show ?thesis by simp
next
  case (3 j k x)
  with assms(2) show ?thesis by simp
qed

lemma delete_AnyObject_owned:
  assumes "owned_by_response w rsp = Some ds"
  shows "delete_AnyObject w rsp = Inr (disposed w ds)"
  using assms
proof (cases rule: owned_cases)
  case 1
  then show ?thesis by (simp add: delete_AnyObject_def)
next
  case (2 j)
  then show ?thesis by (simp add: delete_AnyObject_def delete_ptr_def free_addr_live)
next
  case (3 j k x)
  then have "j \<noteq> k" by auto
  with 3 show ?thesis
    by (simp add: delete_AnyObject_def delete_ptr_live free_addr_live)
qed

lemma delete_AnyObject_after:
  assumes "owned_by_response w rsp = Some ds" and "\<forall>a \<in> set ds. mem w' a = mem w a"
  shows "delete_AnyObject w' rsp = Inr (disposed w' ds)"
  by (rule delete_AnyObject_owned) (rule owned_frame [OF assms])

lemma delete_handler_plain:
  "mem w (Heap t) = Some (HandlerObj c k) \<Longrightarrow> FutureWrapperBase_part k = None \<Longrightarrow>
   delete_handler w (Heap t) = Inr (disposed w [Heap t])"
  by (simp add: delete_handler_def free_addr_live)

text \<open>
  The common tail of the plain entry points: \<open>delete status; delete response; delete this\<close>,
  entered in a world \<open>w'\<close> that still holds the three objects as \<open>w\<close> did.
\<close>

lemma dispose_outcome_and_self:
  assumes h: "mem w (Heap t) = Some (HandlerObj c k)" "FutureWrapperBase_part k = None"
    and st: "mem w (Heap i) = Some (StatusObj s)"
    and rs: "owned_by_response w rsp = Some ds"
    and w': "\<forall>a \<in> insert (Heap t) (insert (Heap i) (set ds)). mem w' a = mem w a"
  shows "seq (delete_ptr w' (Some (Heap i))) (\<lambda>w2.
         seq (delete_AnyObject w2 rsp) (\<lambda>w3.
         delete_handler w3 (Heap t))) = Inr (disposed w' (Heap i # ds @ [Heap t]))"
proof -
  have d: "Heap i \<notin> set ds" "Heap t \<notin> set ds" "i \<noteq> t"
    using h st owned_kind [OF rs] by fastforce+
  have 1: "delete_ptr w' (Some (Heap i)) = Inr (disposed w' [Heap i])"
    using st w' by (simp add: delete_ptr_live)
  have 2: "delete_AnyObject (disposed w' [Heap i]) rsp = Inr (disposed w' (Heap i # ds))"
    using delete_AnyObject_after [OF rs, of "disposed w' [Heap i]"] d w' by auto
  have 3: "delete_handler (disposed w' (Heap i # ds)) (Heap t) =
           Inr (disposed w' (Heap i # ds @ [Heap t]))"
    using delete_handler_plain [of "disposed w' (Heap i # ds)" t c k] h d w' by simp
  show ?thesis by (simp add: 1 2 3)
qed

subsection \<open>The metadata fetch\<close>

lemma File_Stat_allocates:
  "mem w f = Some (FileObj fs (Some v)) \<Longrightarrow>
   File_Stat w f info =
     Inr (fs, Some (Heap (next_addr w)), snd (new_obj (log_event w (Stat f)) (ValueObj v)))"
  by (simp add: File_Stat_def new_obj_def)

lemma File_Stat_allocates_nothing:
  "mem w f = Some (FileObj fs None) \<Longrightarrow>
   File_Stat w f info = Inr (fs, info, log_event w (Stat f))"
  by (simp add: File_Stat_def)

lemma mem_after_Stat [simp]:
  "mem (snd (new_obj (log_event w e) x)) = (mem w)(Heap (next_addr w) \<mapsto> x)"
  by (simp add: new_obj_def)

lemma trace_after_Stat [simp]:
  "trace (snd (new_obj (log_event w e) x)) = trace w @ [e]"
  by (simp add: new_obj_def)

lemma delete_ptr_null: "delete_ptr w None = Inr w"
  by (simp add: delete_ptr_def)

lemma owned_live:
  "owned_by_response w rsp = Some ds \<Longrightarrow> a \<in> set ds \<Longrightarrow> mem w a \<noteq> None"
  by (drule (1) owned_kind) auto

text \<open>
  The tail of the two open wrappers after a fetch that allocated its result at the next free
  address: \<open>delete info; delete status; delete response; delete this\<close>.
\<close>

lemma dispose_info_outcome_and_self:
  assumes h: "mem w (Heap t) = Some (HandlerObj c k)" "FutureWrapperBase_part k = None"
    and st: "mem w (Heap i) = Some (StatusObj s)"
    and rs: "owned_by_response w rsp = Some ds"
    and unused: "mem w (Heap n) = None"
    and w': "mem w' = (mem w)(Heap n \<mapsto> x)"
  shows "seq (delete_ptr w' (Some (Heap n))) (\<lambda>w3.
         seq (delete_ptr w3 (Some (Heap i))) (\<lambda>w4.
         seq (delete_AnyObject w4 rsp) (\<lambda>w5.
         delete_handler w5 (Heap t)))) = Inr (disposed w' (Heap n # Heap i # ds @ [Heap t]))"
proof -
  have d: "Heap n \<notin> set ds" "n \<noteq> i" "n \<noteq> t"
    using h st unused owned_live [OF rs] by fastforce+
  have 1: "delete_ptr w' (Some (Heap n)) = Inr (disposed w' [Heap n])"
    using w' by (simp add: delete_ptr_live)
  have 2: "\<forall>a \<in> insert (Heap t) (insert (Heap i) (set ds)). mem (disposed w' [Heap n]) a = mem w a"
    using d w' by auto
  show ?thesis
    using dispose_outcome_and_self [OF h st rs 2] by (simp add: 1)
qed

lemma no_Stat_among_deletes: "filter is_Stat (map Delete D) = []"
  by (induction D) simp_all

subsection \<open>The three paths of the open wrappers\<close>

lemma open_wrapper_failure:
  assumes h: "mem w (Heap t) = Some (HandlerObj c cls)"
    and st: "mem w (Heap i) = Some (StatusObj s)" and bad: "\<not> IsOK s"
    and rs: "owned_by_response w rsp = Some ds"
  shows "cls = ExOpenFuncWrapper_cls f fn \<Longrightarrow>
         HandleResponse w (Heap t) (Some (Heap i)) rsp =
           Inr (disposed (call w fn [Ref (Some (Heap i)) (Some (StatusObj s)),
                                     Ref (Some ExOpenFuncWrapper_nullref)
                                         (mem w ExOpenFuncWrapper_nullref)])
                  (Heap i # ds @ [Heap t]))"
    and "cls = ForwardingExOpenFuncWrapper_cls f fn \<Longrightarrow>
         HandleResponse w (Heap t) (Some (Heap i)) rsp =
           Inr (disposed (call w fn [Ref (Some (Heap i)) (Some (StatusObj s)),
                                     Ref (Some ForwardingExOpenFuncWrapper_nullref)
                                         (mem w ForwardingExOpenFuncWrapper_nullref),
                                     Ctx (OperationContext c)])
                  (Heap i # ds @ [Heap t]))"
proof -
  have rd: "read_status w (Some (Heap i)) = Inr s"
    using st by (rule read_status_live)
  have tail: "seq (delete_ptr (call w fn args) (Some (Heap i))) (\<lambda>w2.
              seq (delete_AnyObject w2 rsp) (\<lambda>w3.
              delete_handler w3 (Heap t))) =
              Inr (disposed (call w fn args) (Heap i # ds @ [Heap t]))"
    if "FutureWrapperBase_part cls = None" for args
    using dispose_outcome_and_self [OF h that st rs, of "call w fn args"] by simp
  show "HandleResponse w (Heap t) (Some (Heap i)) rsp =
           Inr (disposed (call w fn [Ref (Some (Heap i)) (Some (StatusObj s)),
                                     Ref (Some ExOpenFuncWrapper_nullref)
                                         (mem w ExOpenFuncWrapper_nullref)])
                  (Heap i # ds @ [Heap t]))"
    if "cls = ExOpenFuncWrapper_cls f fn"
    using that h st bad
    by (simp add: HandleResponse_def ExOpenFuncWrapper_HandleResponse_def rd tail ref_def)
  show "HandleResponse w (Heap t) (Some (Heap i)) rsp =
           Inr (disposed (call w fn [Ref (Some (Heap i)) (Some (StatusObj s)),
                                     Ref (Some ForwardingExOpenFuncWrapper_nullref)
                                         (mem w ForwardingExOpenFuncWrapper_nullref),
                                     Ctx (OperationContext c)])
                  (Heap i # ds @ [Heap t]))"
    if "cls = ForwardingExOpenFuncWrapper_cls f fn"
    using that h st bad
    by (simp add: HandleResponse_def ForwardingExOpenFuncWrapper_HandleResponse_def
        ForwardingHandler_GetOperationContext_def rd tail ref_def)
qed

lemma open_wrapper_success_with_result:
  assumes h: "mem w (Heap t) = Some (HandlerObj c cls)"
    and st: "mem w (Heap i) = Some (StatusObj s)" and ok: "IsOK s"
    and rs: "owned_by_response w rsp = Some ds"
    and fl: "mem w f = Some (FileObj fs (Some v))"
    and unused: "mem w (Heap (next_addr w)) = None"
  shows "cls = ExOpenFuncWrapper_cls f fn \<Longrightarrow>
         HandleResponse w (Heap t) (Some (Heap i)) rsp =
           Inr (disposed (call (snd (new_obj (log_event w (Stat f)) (ValueObj v))) fn
                            [Ref (Some (Heap i)) (Some (StatusObj s)),
                             Ref (Some (Heap (next_addr w))) (Some (ValueObj v))])
                  (Heap (next_addr w) # Heap i # ds @ [Heap t]))"
    and "cls = ForwardingExOpenFuncWrapper_cls f fn \<Longrightarrow>
         HandleResponse w (Heap t) (Some (Heap i)) rsp =
           Inr (disposed (call (snd (new_obj (log_event w (Stat f)) (ValueObj v))) fn
                            [Ref (Some (Heap i)) (Some (StatusObj s)),
                             Ref (Some (Heap (next_addr w))) (Some (ValueObj v)),
                             Ctx (OperationContext c)])
                  (Heap (next_addr w) # Heap i # ds @ [Heap t]))"
proof -
  let ?n = "next_addr w"
  let ?w1 = "snd (new_obj (log_event w (Stat f)) (ValueObj v))"
  have rd: "read_status w (Some (Heap i)) = Inr s"
    using st by (rule read_status_live)
  have fresh: "Heap ?n \<notin> set ds" "?n \<noteq> i" "?n \<noteq> t"
    using h st unused owned_live [OF rs] by fastforce+
  have tail1: "seq (delete_ptr (call ?w1 fn args) (Some (Heap ?n))) (\<lambda>w3.
               seq (delete_ptr w3 (Some (Heap i))) (\<lambda>w4.
               seq (delete_AnyObject w4 rsp) (\<lambda>w5.
               delete_handler w5 (Heap t)))) =
               Inr (disposed (call ?w1 fn args) (Heap ?n # Heap i # ds @ [Heap t]))"
    if "FutureWrapperBase_part cls = None" for args
    using dispose_info_outcome_and_self [OF h that st rs unused, of "call ?w1 fn args"] by simp
  have stat: "File_Stat w f None = Inr (fs, Some (Heap ?n), ?w1)"
    using fl by (rule File_Stat_allocates)
  have refs1: "ref ?w1 (Some (Heap i)) = Ref (Some (Heap i)) (Some (StatusObj s))"
    "ref ?w1 (Some (Heap ?n)) = Ref (Some (Heap ?n)) (Some (ValueObj v))"
    using st fresh by (simp_all add: ref_def)
  have h1: "mem ?w1 (Heap t) = Some (HandlerObj c cls)"
    using h fresh by simp
  have ctx1: "ForwardingHandler_GetOperationContext ?w1 (Heap t) = Inr (OperationContext c)"
    using h1 by (simp add: ForwardingHandler_GetOperationContext_def)
  show "HandleResponse w (Heap t) (Some (Heap i)) rsp =
           Inr (disposed (call ?w1 fn [Ref (Some (Heap i)) (Some (StatusObj s)),
                                       Ref (Some (Heap ?n)) (Some (ValueObj v))])
                  (Heap ?n # Heap i # ds @ [Heap t]))"
    if "cls = ExOpenFuncWrapper_cls f fn"
    using that h ok
    by (simp add: HandleResponse_def ExOpenFuncWrapper_HandleResponse_def rd stat refs1 tail1)
  show "HandleResponse w (Heap t) (Some (Heap i)) rsp =
           Inr (disposed (call ?w1 fn [Ref (Some (Heap i)) (Some (StatusObj s)),
                                       Ref (Some (Heap ?n)) (Some (ValueObj v)),
                                       Ctx (OperationContext c)])
                  (Heap ?n # Heap i # ds @ [Heap t]))"
    if "cls = ForwardingExOpenFuncWrapper_cls f fn"
    using that h ok
    by (simp add: HandleResponse_def ForwardingExOpenFuncWrapper_HandleResponse_def rd stat
        ctx1 refs1 tail1)
qed

lemma open_wrapper_success_without_result:
  assumes h: "mem w (Heap t) = Some (HandlerObj c cls)"
    and st: "mem w (Heap i) = Some (StatusObj s)" and ok: "IsOK s"
    and rs: "owned_by_response w rsp = Some ds"
    and fl: "mem w f = Some (FileObj fs None)"
  shows "cls = ExOpenFuncWrapper_cls f fn \<Longrightarrow>
         HandleResponse w (Heap t) (Some (Heap i)) rsp =
           Inr (disposed (call (log_event w (Stat f)) fn
                            [Ref (Some (Heap i)) (Some (StatusObj s)), Ref None None])
                  (Heap i # ds @ [Heap t]))"
    and "cls = ForwardingExOpenFuncWrapper_cls f fn \<Longrightarrow>
         HandleResponse w (Heap t) (Some (Heap i)) rsp =
           Inr (disposed (call (log_event w (Stat f)) fn
                            [Ref (Some (Heap i)) (Some (StatusObj s)), Ref None None,
                             Ctx (OperationContext c)])
                  (Heap i # ds @ [Heap t]))"
proof -
  let ?w1 = "log_event w (Stat f)"
  have rd: "read_status w (Some (Heap i)) = Inr s"
    using st by (rule read_status_live)
  have tail: "seq (delete_ptr (call ?w1 fn args) (Some (Heap i))) (\<lambda>w2.
              seq (delete_AnyObject w2 rsp) (\<lambda>w3.
              delete_handler w3 (Heap t))) =
              Inr (disposed (call ?w1 fn args) (Heap i # ds @ [Heap t]))"
    if "FutureWrapperBase_part cls = None" for args
    using dispose_outcome_and_self [OF h that st rs, of "call ?w1 fn args"] by simp
  have stat: "File_Stat w f None = Inr (fs, None, ?w1)"
    using fl by (rule File_Stat_allocates_nothing)
  have refs1: "ref ?w1 (Some (Heap i)) = Ref (Some (Heap i)) (Some (StatusObj s))"
    "ref ?w1 None = Ref None None"
    using st by (simp_all add: ref_def)
  show "HandleResponse w (Heap t) (Some (Heap i)) rsp =
           Inr (disposed (call ?w1 fn [Ref (Some (Heap i)) (Some (StatusObj s)), Ref None None])
                  (Heap i # ds @ [Heap t]))"
    if "cls = ExOpenFuncWrapper_cls f fn"
    using that h ok
    by (simp add: HandleResponse_def ExOpenFuncWrapper_HandleResponse_def rd stat refs1 tail
        delete_ptr_null)
  show "HandleResponse w (Heap t) (Some (Heap i)) rsp =
           Inr (disposed (call ?w1 fn [Ref (Some (Heap i)) (Some (StatusObj s)), Ref None None,
                                       Ctx (OperationContext c)])
                  (Heap i # ds @ [Heap t]))"
    if "cls = ForwardingExOpenFuncWrapper_cls f fn"
    using that h ok
    by (simp add: HandleResponse_def ForwardingExOpenFuncWrapper_HandleResponse_def rd stat
        refs1 tail delete_ptr_null ForwardingHandler_GetOperationContext_def)
qed

subsection \<open>Destroying a future wrapper\<close>

lemma promise_dtor_ready:
  "mem w p = Some (SharedStateObj x) \<Longrightarrow> x \<noteq> Not_ready \<Longrightarrow> promise_dtor w p = Inr w"
  by (cases x) (simp_all add: promise_dtor_def)

lemma delete_handler_called:
  assumes h: "mem w (Heap t) = Some (HandlerObj c k)"
    and b: "FutureWrapperBase_part k = Some (FutureWrapperBase p True)"
    and ss: "mem w p = Some (SharedStateObj x)" "x \<noteq> Not_ready"
  shows "delete_handler w (Heap t) = Inr (disposed w [Heap t])"
  using h b
  by (simp add: delete_handler_def FutureWrapperBase_dtor_def FutureWrapperBase_of_def
      promise_dtor_ready [OF ss] free_addr_live)

lemma delete_handler_pending:
  assumes h: "mem w (Heap t) = Some (HandlerObj c k)"
    and b: "FutureWrapperBase_part k = Some (FutureWrapperBase p False)"
    and ss: "mem w p = Some (SharedStateObj Not_ready)"
  shows "FutureWrapperBase_dtor w (Heap t) =
           Inr (w\<lparr>mem := (mem w)(p \<mapsto> SharedStateObj (Failed (PipelineException
                       (XRootDStatus_ctor stError errPipelineFailed))))\<rparr>)"
    and "delete_handler w (Heap t) =
           Inr (disposed (w\<lparr>mem := (mem w)(p \<mapsto> SharedStateObj (Failed (PipelineException
                       (XRootDStatus_ctor stError errPipelineFailed))))\<rparr>) [Heap t])"
proof -
  let ?w1 = "w\<lparr>mem := (mem w)(p \<mapsto> SharedStateObj (Failed (PipelineException
                       (XRootDStatus_ctor stError errPipelineFailed))))\<rparr>"
  have d: "p \<noteq> Heap t"
    using h ss by auto
  show 1: "FutureWrapperBase_dtor w (Heap t) = Inr ?w1"
    using h b ss
    by (simp add: FutureWrapperBase_dtor_def FutureWrapperBase_of_def
        FutureWrapperBase_SetException_def promise_set_exception_def)
  have 2: "promise_dtor ?w1 p = Inr ?w1"
    by (simp add: promise_dtor_def)
  have 3: "free_addr ?w1 (Heap t) = Inr (disposed ?w1 [Heap t])"
    using h d by (simp add: free_addr_live)
  show "delete_handler w (Heap t) = Inr (disposed ?w1 [Heap t])"
    using h b by (simp add: delete_handler_def 1 2 3)
qed

text \<open>
  The tail of the two future wrappers, entered after \<open>called\<close> has been set and the promise
  has been satisfied.
\<close>

lemma dispose_outcome_and_called_wrapper:
  assumes h: "mem w (Heap t) = Some (HandlerObj c k)"
    and b: "FutureWrapperBase_part k = Some (FutureWrapperBase p True)"
    and ss: "mem w p = Some (SharedStateObj x)" "x \<noteq> Not_ready"
    and st: "mem w (Heap i) = Some (StatusObj s)"
    and rs: "owned_by_response w rsp = Some ds"
  shows "seq (delete_ptr w (Some (Heap i))) (\<lambda>w2.
         seq (delete_AnyObject w2 rsp) (\<lambda>w3.
         delete_handler w3 (Heap t))) = Inr (disposed w (Heap i # ds @ [Heap t]))"
proof -
  have d: "Heap i \<notin> set ds" "Heap t \<notin> set ds" "i \<noteq> t" "p \<noteq> Heap i" "p \<notin> set ds"
    using h st ss owned_kind [OF rs] by fastforce+
  have 1: "delete_ptr w (Some (Heap i)) = Inr (disposed w [Heap i])"
    using st by (simp add: delete_ptr_live)
  have 2: "delete_AnyObject (disposed w [Heap i]) rsp = Inr (disposed w (Heap i # ds))"
    using delete_AnyObject_after [OF rs, of "disposed w [Heap i]"] d by auto
  have 3: "delete_handler (disposed w (Heap i # ds)) (Heap t) =
           Inr (disposed w (Heap i # ds @ [Heap t]))"
    using delete_handler_called [of "disposed w (Heap i # ds)" t c k p x] h b ss d by simp
  show ?thesis by (simp add: 1 2 3)
qed

lemma future_wrapper_resolves:
  assumes h: "mem w (Heap t) = Some (HandlerObj c cls)"
    and b: "FutureWrapperBase_part cls = Some (FutureWrapperBase p False)"
    and ss: "mem w p = Some (SharedStateObj Not_ready)"
    and st: "mem w (Heap i) = Some (StatusObj s)"
    and rs: "owned_by_response w rsp = Some ds"
    and x: "x \<noteq> Not_ready"
  shows "seq (delete_ptr
                (w\<lparr>mem := (mem w)(Heap t \<mapsto> HandlerObj c (set_called cls True),
                                    p \<mapsto> SharedStateObj x)\<rparr>) (Some (Heap i))) (\<lambda>w3.
         seq (delete_AnyObject w3 rsp) (\<lambda>w4.
         delete_handler w4 (Heap t))) =
         Inr (disposed (w\<lparr>mem := (mem w)(p \<mapsto> SharedStateObj x)\<rparr>) (Heap i # ds @ [Heap t]))"
proof -
  let ?w2 = "w\<lparr>mem := (mem w)(Heap t \<mapsto> HandlerObj c (set_called cls True),
                                p \<mapsto> SharedStateObj x)\<rparr>"
  have d: "Heap i \<notin> set ds" "Heap t \<notin> set ds" "i \<noteq> t" "p \<noteq> Heap i" "p \<notin> set ds"
    "p \<noteq> Heap t"
    using h st ss owned_kind [OF rs] by fastforce+
  have b2: "FutureWrapperBase_part (set_called cls True) = Some (FutureWrapperBase p True)"
    using b by (cases cls) auto
  have h2: "mem ?w2 (Heap t) = Some (HandlerObj c (set_called cls True))"
    using d by simp
  have ss2: "mem ?w2 p = Some (SharedStateObj x)"
    by simp
  have st2: "mem ?w2 (Heap i) = Some (StatusObj s)"
    using st d by simp
  have rs2: "owned_by_response ?w2 rsp = Some ds"
    using d by (intro owned_frame [OF rs]) auto
  have "disposed ?w2 (Heap i # ds @ [Heap t]) =
        disposed (w\<lparr>mem := (mem w)(p \<mapsto> SharedStateObj x)\<rparr>) (Heap i # ds @ [Heap t])"
    by (auto simp: disposed_def restrict_map_def fun_eq_iff)
  then show ?thesis
    using dispose_outcome_and_called_wrapper [OF h2 b2 ss2 x st2 rs2] by simp
qed

subsection \<open>Keys of the forwarding container\<close>

lemma unset_key_stays_unset:
  "m (T', bucket') = None \<Longrightarrow> (T', bucket') \<notin> fst ` set sets \<Longrightarrow>
   foldl (\<lambda>m ((T, bucket), v). ArgsContainer_SetArg m T v bucket) m sets (T', bucket') = None"
proof (induction sets arbitrary: m)
  case Nil
  then show ?case by simp
next
  case (Cons x sets)
  obtain T bucket v where x: "x = ((T, bucket), v)"
    by (metis surj_pair)
  with Cons.prems have "(T, bucket) \<noteq> (T', bucket')" "(T', bucket') \<notin> fst ` set sets"
    by auto
  with Cons.prems(1) have "ArgsContainer_SetArg m T v bucket (T', bucket') = None"
    by (auto simp: ArgsContainer_SetArg_def)
  with Cons.IH [of "ArgsContainer_SetArg m T v bucket"] \<open>(T', bucket') \<notin> fst ` set sets\<close> x
  show ?case by simp
qed

section \<open>A future wrapper destroyed before delivery\<close>

text \<open>
  Claim C1. Let a future wrapper, typed or \<open>void\<close>, be pending: \<open>called\<close> is false and the
  shared state of its promise, to which the caller's future \<open>ftr\<close> refers, is not ready, so
  that \<open>get\<close> on the future blocks. The destructor body stores in the shared state a
  \<open>PipelineException\<close> wrapping \<open>XRootDStatus( stError, errPipelineFailed )\<close>, which is not an
  OK status; \<open>delete\<close> of the wrapper does this before it releases the wrapper, and
  afterwards \<open>get\<close> on the future throws that exception instead of blocking.
\<close>

theorem pending_future_wrapper_destroyed:
  assumes h: "mem w (Heap t) = Some (HandlerObj c cls)"
    and b: "FutureWrapperBase_part cls = Some (FutureWrapperBase p False)"
    and ss: "mem w p = Some (SharedStateObj Not_ready)"
    and ftr: "mem w ftr = Some (FutureObj (Some p))"
  shows "future_get w ftr = Inr Blocks
       \<and> FutureWrapperBase_dtor w (Heap t) =
           Inr (w\<lparr>mem := (mem w)(p \<mapsto> SharedStateObj (Failed (PipelineException
                       (XRootDStatus_ctor stError errPipelineFailed))))\<rparr>)
       \<and> delete_handler w (Heap t) =
           Inr (disposed (w\<lparr>mem := (mem w)(p \<mapsto> SharedStateObj (Failed (PipelineException
                       (XRootDStatus_ctor stError errPipelineFailed))))\<rparr>) [Heap t])
       \<and> future_get (disposed (w\<lparr>mem := (mem w)(p \<mapsto> SharedStateObj (Failed (PipelineException
                       (XRootDStatus_ctor stError errPipelineFailed))))\<rparr>) [Heap t]) ftr =
           Inr (Throws (PipelineException (XRootDStatus_ctor stError errPipelineFailed)))
       \<and> \<not> IsOK (XRootDStatus_ctor stError errPipelineFailed)"
proof -
  have d: "ftr \<noteq> p" "ftr \<noteq> Heap t" "p \<noteq> Heap t"
    using h ss ftr by auto
  have 1: "future_get w ftr = Inr Blocks"
    using ftr ss by (simp add: future_get_def wait_def)
  have 2: "future_get (disposed (w\<lparr>mem := (mem w)(p \<mapsto> SharedStateObj (Failed (PipelineException
                       (XRootDStatus_ctor stError errPipelineFailed))))\<rparr>) [Heap t]) ftr =
           Inr (Throws (PipelineException (XRootDStatus_ctor stError errPipelineFailed)))"
    using ftr d by (simp add: future_get_def wait_def)
  have 3: "\<not> IsOK (XRootDStatus_ctor stError errPipelineFailed)"
    by (simp add: IsOK_def XRootDStatus_ctor_def stOK_def stError_def)
  show ?thesis
    using delete_handler_pending [OF h b ss] 1 2 3 by simp
qed

theorem pending_future_wrapper_destroyed_witness:
  "let W = \<lparr>mem = [Heap 0 \<mapsto> FutureObj (Some (Heap 3)),
                    Heap 1 \<mapsto> HandlerObj (Some (Heap 2))
                               (FutureWrapper_cls (FutureWrapperBase (Heap 3) False)),
                    Heap 2 \<mapsto> ArgsContainerObj (\<lambda>k. None),
                    Heap 3 \<mapsto> SharedStateObj Not_ready],
             next_addr = 4, trace = []\<rparr> :: int world
   in mem W (Heap 1) = Some (HandlerObj (Some (Heap 2))
                               (FutureWrapper_cls (FutureWrapperBase (Heap 3) False)))
    \<and> FutureWrapperBase_part (FutureWrapper_cls (FutureWrapperBase (Heap 3) False)) =
        Some (FutureWrapperBase (Heap 3) False)
    \<and> mem W (Heap 3) = Some (SharedStateObj Not_ready)
    \<and> mem W (Heap 0) = Some (FutureObj (Some (Heap 3)))
    \<and> (\<exists>w'. delete_handler W (Heap 1) = Inr w'
          \<and> future_get w' (Heap 0) =
              Inr (Throws (PipelineException (XRootDStatus_ctor stError errPipelineFailed)))
          \<and> mem w' (Heap 1) = None
          \<and> trace w' = [Delete (Heap 1)])"
proof -
  define W :: "int world" where
    "W = \<lparr>mem = [Heap 0 \<mapsto> FutureObj (Some (Heap 3)),
                    Heap 1 \<mapsto> HandlerObj (Some (Heap 2))
                               (FutureWrapper_cls (FutureWrapperBase (Heap 3) False)),
                    Heap 2 \<mapsto> ArgsContainerObj (\<lambda>k. None),
                    Heap 3 \<mapsto> SharedStateObj Not_ready],
             next_addr = 4, trace = []\<rparr>"
  have h: "mem W (Heap 1) = Some (HandlerObj (Some (Heap 2))
                               (FutureWrapper_cls (FutureWrapperBase (Heap 3) False)))"
    and b: "FutureWrapperBase_part (FutureWrapper_cls (FutureWrapperBase (Heap 3) False)) =
        Some (FutureWrapperBase (Heap 3) False)"
    and ss: "mem W (Heap 3) = Some (SharedStateObj Not_ready)"
    and ftr: "mem W (Heap 0) = Some (FutureObj (Some (Heap 3)))"
    by (simp_all add: W_def)
  have tr: "trace W = []"
    by (simp add: W_def)
  from pending_future_wrapper_destroyed [OF h b ss ftr]
  have "\<exists>w'. delete_handler W (Heap 1) = Inr w'
          \<and> future_get w' (Heap 0) =
              Inr (Throws (PipelineException (XRootDStatus_ctor stError errPipelineFailed)))
          \<and> mem w' (Heap 1) = None
          \<and> trace w' = [Delete (Heap 1)]"
    by (auto simp: tr)
  with h b ss ftr show ?thesis
    unfolding W_def [symmetric] Let_def by simp
qed

section \<open>Callables dispatched through the factory\<close>

text \<open>
  Claim C2. Let a success status sit at \<open>Heap i\<close> and a payload at \<open>Heap j\<close> that holds the
  response \<open>R\<close> at \<open>Heap k\<close>, all three allocated before the dispatch. For each of the four
  callable shapes, \<open>Create\<close> returns a new handler at the next free address, and delivering
  the outcome to it extends the trace by exactly one \<open>Call\<close> of the callable, followed by the
  deletion of the status, the response, the payload holder and the handler. The callable
  receives the success status, the response \<open>R\<close> when its shape has a response parameter,
  and the context over the handler's container when its shape has a context parameter.
\<close>

theorem callable_invoked_once_on_success:
  assumes st: "mem w (Heap i) = Some (StatusObj s)" and ok: "IsOK s"
    and rs: "mem w (Heap j) = Some (AnyObjectObj (Some (Heap k)))"
    and pv: "mem w (Heap k) = Some (ValueObj R)"
    and below: "i < next_addr w" "j < next_addr w" "k < next_addr w"
  shows "(\<exists>w1 w2. Resp_void_Create (Function_status f) w = (Some (Heap (next_addr w)), w1)
            \<and> HandleResponse w1 (Heap (next_addr w)) (Some (Heap i)) (Some (Heap j)) = Inr w2
            \<and> w2 = disposed (call w1 f [Ref (Some (Heap i)) (Some (StatusObj s))])
                     [Heap i, Heap k, Heap j, Heap (next_addr w)]
            \<and> trace w2 = trace w @
                 [Call f [Ref (Some (Heap i)) (Some (StatusObj s))],
                  Delete (Heap i), Delete (Heap k), Delete (Heap j), Delete (Heap (next_addr w))])
       \<and> (\<exists>w1 w2. Resp_void_Create (Function_status_context f) w = (Some (Heap (next_addr w)), w1)
            \<and> HandleResponse w1 (Heap (next_addr w)) (Some (Heap i)) (Some (Heap j)) = Inr w2
            \<and> w2 = disposed (call w1 f [Ref (Some (Heap i)) (Some (StatusObj s)),
                                          Ctx (OperationContext (Some (Heap (Suc (next_addr w)))))])
                     [Heap i, Heap k, Heap j, Heap (next_addr w)]
            \<and> trace w2 = trace w @
                 [Call f [Ref (Some (Heap i)) (Some (StatusObj s)),
                          Ctx (OperationContext (Some (Heap (Suc (next_addr w)))))],
                  Delete (Heap i), Delete (Heap k), Delete (Heap j), Delete (Heap (next_addr w))])
       \<and> (\<exists>w1 w2. Resp_Create (Function_status_response f) w = (Some (Heap (next_addr w)), w1)
            \<and> HandleResponse w1 (Heap (next_addr w)) (Some (Heap i)) (Some (Heap j)) = Inr w2
            \<and> w2 = disposed (call w1 f [Ref (Some (Heap i)) (Some (StatusObj s)),
                                          Ref (Some (Heap k)) (Some (ValueObj R))])
                     [Heap i, Heap k, Heap j, Heap (next_addr w)]
            \<and> trace w2 = trace w @
                 [Call f [Ref (Some (Heap i)) (Some (StatusObj s)),
                          Ref (Some (Heap k)) (Some (ValueObj R))],
                  Delete (Heap i), Delete (Heap k), Delete (Heap j), Delete (Heap (next_addr w))])
       \<and> (\<exists>w1 w2. Resp_Create (Function_status_response_context f) w = (Some (Heap (next_addr w)), w1)
            \<and> HandleResponse w1 (Heap (next_addr w)) (Some (Heap i)) (Some (Heap j)) = Inr w2
            \<and> w2 = disposed (call w1 f [Ref (Some (Heap i)) (Some (StatusObj s)),
                                          Ref (Some (Heap k)) (Some (ValueObj R)),
                                          Ctx (OperationContext (Some (Heap (Suc (next_addr w)))))])
                     [Heap i, Heap k, Heap j, Heap (next_addr w)]
            \<and> trace w2 = trace w @
                 [Call f [Ref (Some (Heap i)) (Some (StatusObj s)),
                          Ref (Some (Heap k)) (Some (ValueObj R)),
                          Ctx (OperationContext (Some (Heap (Suc (next_addr w)))))],
                  Delete (Heap i), Delete (Heap k), Delete (Heap j), Delete (Heap (next_addr w))])"
proof -
  let ?n = "next_addr w"
  let ?c = "Some (Heap (Suc ?n))"
  define W where "W cls = snd (new_handler w cls)" for cls
  have create: "new_handler w cls = (Heap ?n, W cls)" for cls
    by (simp add: W_def new_handler_eq)
  have memW: "mem (W cls) = (mem w)(Heap (Suc ?n) \<mapsto> ArgsContainerObj (\<lambda>k. None),
                                  Heap ?n \<mapsto> HandlerObj ?c cls)" for cls
    by (simp add: W_def new_handler_eq)
  have trW: "trace (W cls) = trace w" for cls
    by (simp add: W_def new_handler_eq)
  have old: "mem (W cls) (Heap m) = mem w (Heap m)" if "m < ?n" for m cls
    using that by (simp add: memW)
  have hW: "mem (W cls) (Heap ?n) = Some (HandlerObj ?c cls)" for cls
    by (simp add: memW)
  have stW: "mem (W cls) (Heap i) = Some (StatusObj s)" for cls
    using st below by (simp add: old)
  have rsW: "owned_by_response (W cls) (Some (Heap j)) = Some [Heap k, Heap j]" for cls
    using rs pv below by (simp add: old)
  have tail: "seq (delete_ptr (call (W cls) f args) (Some (Heap i))) (\<lambda>w2.
              seq (delete_AnyObject w2 (Some (Heap j))) (\<lambda>w3.
              delete_handler w3 (Heap ?n))) =
              Inr (disposed (call (W cls) f args) [Heap i, Heap k, Heap j, Heap ?n])"
    if "FutureWrapperBase_part cls = None" for cls args
    using dispose_outcome_and_self [OF hW that stW rsW, of "call (W cls) f args"] by simp
  have get: "AnyObject_Get (W cls) (Some (Heap j)) = Inr (Some (Heap k))" for cls
    using rs below by (simp add: AnyObject_Get_def old)
  have refs: "ref (W cls) (Some (Heap i)) = Ref (Some (Heap i)) (Some (StatusObj s))"
    "ref (W cls) (Some (Heap k)) = Ref (Some (Heap k)) (Some (ValueObj R))" for cls
    using st pv below by (simp_all add: ref_def old)
  have rd: "read_status (W cls) (Some (Heap i)) = Inr s" for cls
    by (rule read_status_live [OF stW])
  have ctx: "ForwardingHandler_GetOperationContext (W cls) (Heap ?n) = Inr (OperationContext ?c)"
    for cls
    by (simp add: ForwardingHandler_GetOperationContext_def hW)
  have status_only:
    "Resp_void_Create (Function_status f) w = (Some (Heap ?n), W (SimpleFunctionWrapper_cls f))"
    "HandleResponse (W (SimpleFunctionWrapper_cls f)) (Heap ?n) (Some (Heap i)) (Some (Heap j)) =
       Inr (disposed (call (W (SimpleFunctionWrapper_cls f)) f
                        [Ref (Some (Heap i)) (Some (StatusObj s))])
              [Heap i, Heap k, Heap j, Heap ?n])"
    by (simp_all add: create HandleResponse_def hW SimpleFunctionWrapper_HandleResponse_def
        rd refs tail)
  have status_context:
    "Resp_void_Create (Function_status_context f) w =
       (Some (Heap ?n), W (SimpleForwardingFunctionWrapper_cls f))"
    "HandleResponse (W (SimpleForwardingFunctionWrapper_cls f)) (Heap ?n)
        (Some (Heap i)) (Some (Heap j)) =
       Inr (disposed (call (W (SimpleForwardingFunctionWrapper_cls f)) f
                        [Ref (Some (Heap i)) (Some (StatusObj s)), Ctx (OperationContext ?c)])
              [Heap i, Heap k, Heap j, Heap ?n])"
    by (simp_all add: create HandleResponse_def hW
        SimpleForwardingFunctionWrapper_HandleResponse_def ctx rd refs tail)
  have status_response:
    "Resp_Create (Function_status_response f) w = (Some (Heap ?n), W (FunctionWrapper_cls f))"
    "HandleResponse (W (FunctionWrapper_cls f)) (Heap ?n) (Some (Heap i)) (Some (Heap j)) =
       Inr (disposed (call (W (FunctionWrapper_cls f)) f
                        [Ref (Some (Heap i)) (Some (StatusObj s)),
                         Ref (Some (Heap k)) (Some (ValueObj R))])
              [Heap i, Heap k, Heap j, Heap ?n])"
    by (simp_all add: create HandleResponse_def hW FunctionWrapper_HandleResponse_def
        rd ok get refs tail)
  have status_response_context:
    "Resp_Create (Function_status_response_context f) w =
       (Some (Heap ?n), W (ForwardingFunctionWrapper_cls f))"
    "HandleResponse (W (ForwardingFunctionWrapper_cls f)) (Heap ?n)
        (Some (Heap i)) (Some (Heap j)) =
       Inr (disposed (call (W (ForwardingFunctionWrapper_cls f)) f
                        [Ref (Some (Heap i)) (Some (StatusObj s)),
                         Ref (Some (Heap k)) (Some (ValueObj R)), Ctx (OperationContext ?c)])
              [Heap i, Heap k, Heap j, Heap ?n])"
    by (simp_all add: create HandleResponse_def hW ForwardingFunctionWrapper_HandleResponse_def
        ctx rd ok get refs tail)
  show ?thesis
    using status_only status_context status_response status_response_context
    by (simp add: trW)
qed

theorem callable_invoked_once_on_success_witness:
  "let W = \<lparr>mem = [Heap 0 \<mapsto> StatusObj (XRootDStatus_ctor stOK 0),
                    Heap 1 \<mapsto> AnyObjectObj (Some (Heap 2)),
                    Heap 2 \<mapsto> ValueObj (42 :: int)],
             next_addr = 3, trace = []\<rparr>
   in mem W (Heap 0) = Some (StatusObj (XRootDStatus_ctor stOK 0))
    \<and> IsOK (XRootDStatus_ctor stOK 0)
    \<and> mem W (Heap 1) = Some (AnyObjectObj (Some (Heap 2)))
    \<and> mem W (Heap 2) = Some (ValueObj 42)
    \<and> 0 < next_addr W \<and> 1 < next_addr W \<and> 2 < next_addr W
    \<and> (\<exists>w1 w2. Resp_Create (Function_status_response 7) W = (Some (Heap 3), w1)
          \<and> HandleResponse w1 (Heap 3) (Some (Heap 0)) (Some (Heap 1)) = Inr w2
          \<and> trace w2 =
               [Call 7 [Ref (Some (Heap 0)) (Some (StatusObj (XRootDStatus_ctor stOK 0))),
                        Ref (Some (Heap 2)) (Some (ValueObj 42))],
                Delete (Heap 0), Delete (Heap 2), Delete (Heap 1), Delete (Heap 3)])"
proof -
  define W :: "int world" where
    "W = \<lparr>mem = [Heap 0 \<mapsto> StatusObj (XRootDStatus_ctor stOK 0),
                    Heap 1 \<mapsto> AnyObjectObj (Some (Heap 2)),
                    Heap 2 \<mapsto> ValueObj (42 :: int)],
             next_addr = 3, trace = []\<rparr>"
  have st: "mem W (Heap 0) = Some (StatusObj (XRootDStatus_ctor stOK 0))"
    and ok: "IsOK (XRootDStatus_ctor stOK 0)"
    and rs: "mem W (Heap 1) = Some (AnyObjectObj (Some (Heap 2)))"
    and pv: "mem W (Heap 2) = Some (ValueObj 42)"
    and below: "0 < next_addr W" "1 < next_addr W" "2 < next_addr W"
    by (simp_all add: W_def IsOK_def XRootDStatus_ctor_def)
  have n: "next_addr W = 3" and tr: "trace W = []"
    by (simp_all add: W_def)
  from callable_invoked_once_on_success [OF st ok rs pv below, of 7]
  have "\<exists>w1 w2. Resp_Create (Function_status_response 7) W = (Some (Heap 3), w1)
          \<and> HandleResponse w1 (Heap 3) (Some (Heap 0)) (Some (Heap 1)) = Inr w2
          \<and> trace w2 =
               [Call 7 [Ref (Some (Heap 0)) (Some (StatusObj (XRootDStatus_ctor stOK 0))),
                        Ref (Some (Heap 2)) (Some (ValueObj 42))],
                Delete (Heap 0), Delete (Heap 2), Delete (Heap 1), Delete (Heap 3)]"
    unfolding n tr by auto
  with st ok rs pv below show ?thesis
    unfolding W_def [symmetric] Let_def by simp
qed

section \<open>The placeholder response on failure\<close>



section \<open>The future bridge\<close>

text \<open>
  Claim C4. Let a future wrapper be pending: \<open>called\<close> is false and the shared state of its
  promise, to which the caller's future \<open>ftr\<close> refers, is not ready. Delivery of a success
  status to \<open>FutureWrapper<Response>\<close> with a payload holding \<open>R\<close> makes the shared state
  ready with \<open>R\<close>; delivery of a success status to \<open>FutureWrapper<void>\<close> makes it ready
  with no value; delivery of a failure status \<open>s\<close> to either stores a \<open>PipelineException\<close>
  whose error is \<open>s\<close> itself. In each case the status, the response and the wrapper are
  deleted, and \<open>get\<close> on the future returns the value or throws the exception instead of
  blocking.
\<close>

theorem future_bridge_delivery:
  assumes h: "mem w (Heap t) = Some (HandlerObj c cls)"
    and b: "FutureWrapperBase_part cls = Some (FutureWrapperBase p False)"
    and ss: "mem w p = Some (SharedStateObj Not_ready)"
    and ftr: "mem w ftr = Some (FutureObj (Some p))"
    and st: "mem w (Heap i) = Some (StatusObj s)"
    and rs: "owned_by_response w rsp = Some ds"
  shows "(cls = FutureWrapper_cls (FutureWrapperBase p False) \<and> IsOK s
            \<and> ds = [Heap k, Heap j] \<and> mem w (Heap k) = Some (ValueObj R) \<longrightarrow>
           (\<exists>w'. HandleResponse w (Heap t) (Some (Heap i)) rsp = Inr w'
              \<and> w' = disposed (w\<lparr>mem := (mem w)(p \<mapsto> SharedStateObj (Ready (Some R)))\<rparr>)
                       (Heap i # ds @ [Heap t])
              \<and> future_get w' ftr = Inr (Returns (Some R))))
       \<and> (cls = FutureWrapper_void_cls (FutureWrapperBase p False) \<and> IsOK s \<longrightarrow>
           (\<exists>w'. HandleResponse w (Heap t) (Some (Heap i)) rsp = Inr w'
              \<and> w' = disposed (w\<lparr>mem := (mem w)(p \<mapsto> SharedStateObj (Ready None))\<rparr>)
                       (Heap i # ds @ [Heap t])
              \<and> future_get w' ftr = Inr (Returns None)))
       \<and> (\<not> IsOK s \<longrightarrow>
           (\<exists>w'. HandleResponse w (Heap t) (Some (Heap i)) rsp = Inr w'
              \<and> w' = disposed (w\<lparr>mem := (mem w)(p \<mapsto> SharedStateObj (Failed (PipelineException s)))\<rparr>)
                       (Heap i # ds @ [Heap t])
              \<and> future_get w' ftr = Inr (Throws (PipelineException s))
              \<and> GetError (PipelineException s) = s))"
proof -
  define cls1 where "cls1 = set_called cls True"
  let ?w1 = "w\<lparr>mem := (mem w)(Heap t \<mapsto> HandlerObj c cls1)\<rparr>"
  let ?D = "Heap i # ds @ [Heap t]"
  have d: "Heap i \<notin> set ds" "Heap t \<notin> set ds" "i \<noteq> t" "p \<noteq> Heap i" "p \<notin> set ds"
    "p \<noteq> Heap t" "ftr \<noteq> p" "ftr \<notin> set ?D"
    using h st ss ftr owned_kind [OF rs] by fastforce+
  have called: "write_called w (Heap t) True = Inr ?w1"
    using h by (simp add: write_called_def cls1_def)
  have rd: "read_status ?w1 (Some (Heap i)) = Inr s"
    using st d by (simp add: read_status_def)
  have b1: "FutureWrapperBase_of ?w1 (Heap t) = Inr (FutureWrapperBase p True)"
    using b by (cases cls) (auto simp: FutureWrapperBase_of_def cls1_def)
  have upd: "?w1\<lparr>mem := (mem ?w1)(p \<mapsto> SharedStateObj x)\<rparr> =
             w\<lparr>mem := (mem w)(Heap t \<mapsto> HandlerObj c cls1,
                              p \<mapsto> SharedStateObj x)\<rparr>" for x
    by simp
  have set_value: "promise_set_value ?w1 p v =
        Inr (w\<lparr>mem := (mem w)(Heap t \<mapsto> HandlerObj c cls1,
                               p \<mapsto> SharedStateObj (Ready v))\<rparr>)" for v
    using ss d by (simp add: promise_set_value_def)
  have set_exception: "FutureWrapperBase_SetException ?w1 (Heap t) s =
        Inr (w\<lparr>mem := (mem w)(Heap t \<mapsto> HandlerObj c cls1,
                               p \<mapsto> SharedStateObj (Failed (PipelineException s)))\<rparr>)"
    using ss d by (simp add: FutureWrapperBase_SetException_def b1 promise_set_exception_def)
  have tail: "seq (delete_ptr
                (w\<lparr>mem := (mem w)(Heap t \<mapsto> HandlerObj c cls1,
                                    p \<mapsto> SharedStateObj x)\<rparr>) (Some (Heap i))) (\<lambda>w3.
         seq (delete_AnyObject w3 rsp) (\<lambda>w4.
         delete_handler w4 (Heap t))) =
         Inr (disposed (w\<lparr>mem := (mem w)(p \<mapsto> SharedStateObj x)\<rparr>) ?D)"
    if "x \<noteq> Not_ready" for x
    using future_wrapper_resolves [OF h b ss st rs that] by (simp add: cls1_def)
  have get: "future_get (disposed (w\<lparr>mem := (mem w)(p \<mapsto> SharedStateObj x)\<rparr>) ?D) ftr =
             Inr (wait x)" for x
    using ftr d by (simp add: future_get_def)
  have typed_ok: "HandleResponse w (Heap t) (Some (Heap i)) rsp =
        Inr (disposed (w\<lparr>mem := (mem w)(p \<mapsto> SharedStateObj (Ready (Some R)))\<rparr>) ?D)"
    if "cls = FutureWrapper_cls (FutureWrapperBase p False)" "IsOK s"
      "ds = [Heap k, Heap j]" "mem w (Heap k) = Some (ValueObj R)"
  proof -
    from rs that(3) have r: "rsp = Some (Heap j)" "mem w (Heap j) = Some (AnyObjectObj (Some (Heap k)))"
      by (auto elim!: owned_cases)
    have "j \<noteq> t" "k \<noteq> t"
      using h r that(4) by auto
    then have "AnyObject_Get ?w1 rsp = Inr (Some (Heap k))" "read_value ?w1 (Some (Heap k)) = Inr R"
      using r that(4) by (simp_all add: AnyObject_Get_def read_value_def)
    then show ?thesis
      using that(1,2) h
      by (simp add: HandleResponse_def FutureWrapper_HandleResponse_def called rd
          set_value tail)
  qed
  have void_ok: "HandleResponse w (Heap t) (Some (Heap i)) rsp =
        Inr (disposed (w\<lparr>mem := (mem w)(p \<mapsto> SharedStateObj (Ready None))\<rparr>) ?D)"
    if "cls = FutureWrapper_void_cls (FutureWrapperBase p False)" "IsOK s"
    using that h
    by (simp add: HandleResponse_def FutureWrapper_void_HandleResponse_def called rd
        set_value tail)
  have failed: "HandleResponse w (Heap t) (Some (Heap i)) rsp =
        Inr (disposed (w\<lparr>mem := (mem w)(p \<mapsto> SharedStateObj (Failed (PipelineException s)))\<rparr>) ?D)"
    if "\<not> IsOK s"
  proof (cases cls)
    case (FutureWrapper_cls x)
    with b that h show ?thesis
      by (simp add: HandleResponse_def FutureWrapper_HandleResponse_def called rd
          set_exception tail)
  next
    case (FutureWrapper_void_cls x)
    with b that h show ?thesis
      by (simp add: HandleResponse_def FutureWrapper_void_HandleResponse_def called rd
          set_exception tail)
  qed (use b in simp_all)
  show ?thesis
  proof (intro conjI impI)
    assume "cls = FutureWrapper_cls (FutureWrapperBase p False) \<and> IsOK s
            \<and> ds = [Heap k, Heap j] \<and> mem w (Heap k) = Some (ValueObj R)"
    then have "HandleResponse w (Heap t) (Some (Heap i)) rsp =
        Inr (disposed (w\<lparr>mem := (mem w)(p \<mapsto> SharedStateObj (Ready (Some R)))\<rparr>) ?D)"
      using typed_ok by blast
    then show "\<exists>w'. HandleResponse w (Heap t) (Some (Heap i)) rsp = Inr w'
              \<and> w' = disposed (w\<lparr>mem := (mem w)(p \<mapsto> SharedStateObj (Ready (Some R)))\<rparr>) ?D
              \<and> future_get w' ftr = Inr (Returns (Some R))"
      using get [of "Ready (Some R)"] by (simp add: wait_def)
  next
    assume "cls = FutureWrapper_void_cls (FutureWrapperBase p False) \<and> IsOK s"
    then have "HandleResponse w (Heap t) (Some (Heap i)) rsp =
        Inr (disposed (w\<lparr>mem := (mem w)(p \<mapsto> SharedStateObj (Ready None))\<rparr>) ?D)"
      using void_ok by blast
    then show "\<exists>w'. HandleResponse w (Heap t) (Some (Heap i)) rsp = Inr w'
              \<and> w' = disposed (w\<lparr>mem := (mem w)(p \<mapsto> SharedStateObj (Ready None))\<rparr>) ?D
              \<and> future_get w' ftr = Inr (Returns None)"
      using get [of "Ready None"] by (simp add: wait_def)
  next
    assume "\<not> IsOK s"
    then have "HandleResponse w (Heap t) (Some (Heap i)) rsp =
        Inr (disposed (w\<lparr>mem := (mem w)(p \<mapsto> SharedStateObj (Failed (PipelineException s)))\<rparr>) ?D)"
      by (rule failed)
    then show "\<exists>w'. HandleResponse w (Heap t) (Some (Heap i)) rsp = Inr w'
              \<and> w' = disposed (w\<lparr>mem := (mem w)(p \<mapsto> SharedStateObj (Failed (PipelineException s)))\<rparr>) ?D
              \<and> future_get w' ftr = Inr (Throws (PipelineException s))
              \<and> GetError (PipelineException s) = s"
      using get [of "Failed (PipelineException s)"] by (simp add: wait_def)
  qed
qed

theorem future_bridge_delivery_witness:
  "let W = \<lparr>mem = [Heap 0 \<mapsto> FutureObj (Some (Heap 3)),
                    Heap 1 \<mapsto> HandlerObj (Some (Heap 2))
                               (FutureWrapper_void_cls (FutureWrapperBase (Heap 3) False)),
                    Heap 2 \<mapsto> ArgsContainerObj (\<lambda>k. None),
                    Heap 3 \<mapsto> SharedStateObj Not_ready,
                    Heap 4 \<mapsto> StatusObj (XRootDStatus_ctor stError 7)],
             next_addr = 5, trace = []\<rparr> :: int world
   in mem W (Heap 1) = Some (HandlerObj (Some (Heap 2))
                               (FutureWrapper_void_cls (FutureWrapperBase (Heap 3) False)))
    \<and> FutureWrapperBase_part (FutureWrapper_void_cls (FutureWrapperBase (Heap 3) False)) =
        Some (FutureWrapperBase (Heap 3) False)
    \<and> mem W (Heap 3) = Some (SharedStateObj Not_ready)
    \<and> mem W (Heap 0) = Some (FutureObj (Some (Heap 3)))
    \<and> mem W (Heap 4) = Some (StatusObj (XRootDStatus_ctor stError 7))
    \<and> owned_by_response W None = Some []
    \<and> \<not> IsOK (XRootDStatus_ctor stError 7)
    \<and> future_get W (Heap 0) = Inr Blocks
    \<and> (\<exists>w'. HandleResponse W (Heap 1) (Some (Heap 4)) None = Inr w'
          \<and> future_get w' (Heap 0) = Inr (Throws (PipelineException (XRootDStatus_ctor stError 7)))
          \<and> code (GetError (PipelineException (XRootDStatus_ctor stError 7))) = 7
          \<and> trace w' = [Delete (Heap 4), Delete (Heap 1)])"
proof -
  define W :: "int world" where
    "W = \<lparr>mem = [Heap 0 \<mapsto> FutureObj (Some (Heap 3)),
                    Heap 1 \<mapsto> HandlerObj (Some (Heap 2))
                               (FutureWrapper_void_cls (FutureWrapperBase (Heap 3) False)),
                    Heap 2 \<mapsto> ArgsContainerObj (\<lambda>k. None),
                    Heap 3 \<mapsto> SharedStateObj Not_ready,
                    Heap 4 \<mapsto> StatusObj (XRootDStatus_ctor stError 7)],
             next_addr = 5, trace = []\<rparr>"
  have h: "mem W (Heap 1) = Some (HandlerObj (Some (Heap 2))
                               (FutureWrapper_void_cls (FutureWrapperBase (Heap 3) False)))"
    and b: "FutureWrapperBase_part (FutureWrapper_void_cls (FutureWrapperBase (Heap 3) False)) =
        Some (FutureWrapperBase (Heap 3) False)"
    and ss: "mem W (Heap 3) = Some (SharedStateObj Not_ready)"
    and ftr: "mem W (Heap 0) = Some (FutureObj (Some (Heap 3)))"
    and st: "mem W (Heap 4) = Some (StatusObj (XRootDStatus_ctor stError 7))"
    and rs: "owned_by_response W None = Some []"
    and bad: "\<not> IsOK (XRootDStatus_ctor stError 7)"
    and blocks: "future_get W (Heap 0) = Inr Blocks"
    by (simp_all add: W_def IsOK_def XRootDStatus_ctor_def stOK_def stError_def future_get_def
        wait_def)
  have tr: "trace W = []"
    by (simp add: W_def)
  from future_bridge_delivery [OF h b ss ftr st rs] bad
  have "\<exists>w'. HandleResponse W (Heap 1) (Some (Heap 4)) None = Inr w'
          \<and> future_get w' (Heap 0) = Inr (Throws (PipelineException (XRootDStatus_ctor stError 7)))
          \<and> code (GetError (PipelineException (XRootDStatus_ctor stError 7))) = 7
          \<and> trace w' = [Delete (Heap 4), Delete (Heap 1)]"
    by (auto simp: tr XRootDStatus_ctor_def)
  with h b ss ftr st rs bad blocks show ?thesis
    unfolding W_def [symmetric] Let_def by simp
qed

section \<open>The open wrappers with a metadata fetch\<close>

text \<open>
  Claim C5. Consider an \<open>ExOpenFuncWrapper\<close> or a \<open>ForwardingExOpenFuncWrapper\<close> on a
  file. When the open status is a failure, the trace gains no \<open>Stat\<close> event: the callable
  is invoked with the static \<open>nullref\<close> of the class, which is not deleted. When the open
  status is a success, the trace gains exactly one \<open>Stat\<close> event; if the fetch allocates a
  result holding \<open>v\<close>, the callable is invoked with the object allocated at the next free
  address, and that object is the first of the objects deleted afterwards, each of them
  once.
\<close>

theorem open_wrapper_fetches_only_on_success:
  assumes h: "mem w (Heap t) = Some (HandlerObj c cls)"
    and st: "mem w (Heap i) = Some (StatusObj s)"
    and rs: "owned_by_response w rsp = Some ds"
    and fl: "mem w f = Some (FileObj fs r)"
    and unused: "mem w (Heap (next_addr w)) = None"
  shows "(cls = ExOpenFuncWrapper_cls f fn \<and> \<not> IsOK s \<longrightarrow>
           (\<exists>w'. HandleResponse w (Heap t) (Some (Heap i)) rsp = Inr w'
              \<and> w' = disposed (call w fn [Ref (Some (Heap i)) (Some (StatusObj s)),
                                          Ref (Some ExOpenFuncWrapper_nullref)
                                              (mem w ExOpenFuncWrapper_nullref)])
                       (Heap i # ds @ [Heap t])
              \<and> trace w' = trace w @
                   [Call fn [Ref (Some (Heap i)) (Some (StatusObj s)),
                             Ref (Some ExOpenFuncWrapper_nullref) (mem w ExOpenFuncWrapper_nullref)],
                    Delete (Heap i)] @ map Delete ds @ [Delete (Heap t)]))
       \<and> (cls = ForwardingExOpenFuncWrapper_cls f fn \<and> \<not> IsOK s \<longrightarrow>
           (\<exists>w'. HandleResponse w (Heap t) (Some (Heap i)) rsp = Inr w'
              \<and> w' = disposed (call w fn [Ref (Some (Heap i)) (Some (StatusObj s)),
                                          Ref (Some ForwardingExOpenFuncWrapper_nullref)
                                              (mem w ForwardingExOpenFuncWrapper_nullref),
                                          Ctx (OperationContext c)])
                       (Heap i # ds @ [Heap t])
              \<and> trace w' = trace w @
                   [Call fn [Ref (Some (Heap i)) (Some (StatusObj s)),
                             Ref (Some ForwardingExOpenFuncWrapper_nullref)
                                 (mem w ForwardingExOpenFuncWrapper_nullref),
                             Ctx (OperationContext c)],
                    Delete (Heap i)] @ map Delete ds @ [Delete (Heap t)]))
       \<and> (cls = ExOpenFuncWrapper_cls f fn \<and> IsOK s \<and> r = Some v \<longrightarrow>
           (\<exists>w'. HandleResponse w (Heap t) (Some (Heap i)) rsp = Inr w'
              \<and> w' = disposed (call (snd (new_obj (log_event w (Stat f)) (ValueObj v))) fn
                                 [Ref (Some (Heap i)) (Some (StatusObj s)),
                                  Ref (Some (Heap (next_addr w))) (Some (ValueObj v))])
                       (Heap (next_addr w) # Heap i # ds @ [Heap t])
              \<and> trace w' = trace w @
                   [Stat f,
                    Call fn [Ref (Some (Heap i)) (Some (StatusObj s)),
                             Ref (Some (Heap (next_addr w))) (Some (ValueObj v))],
                    Delete (Heap (next_addr w)), Delete (Heap i)] @ map Delete ds @ [Delete (Heap t)]))
       \<and> (cls = ForwardingExOpenFuncWrapper_cls f fn \<and> IsOK s \<and> r = Some v \<longrightarrow>
           (\<exists>w'. HandleResponse w (Heap t) (Some (Heap i)) rsp = Inr w'
              \<and> w' = disposed (call (snd (new_obj (log_event w (Stat f)) (ValueObj v))) fn
                                 [Ref (Some (Heap i)) (Some (StatusObj s)),
                                  Ref (Some (Heap (next_addr w))) (Some (ValueObj v)),
                                  Ctx (OperationContext c)])
                       (Heap (next_addr w) # Heap i # ds @ [Heap t])
              \<and> trace w' = trace w @
                   [Stat f,
                    Call fn [Ref (Some (Heap i)) (Some (StatusObj s)),
                             Ref (Some (Heap (next_addr w))) (Some (ValueObj v)),
                             Ctx (OperationContext c)],
                    Delete (Heap (next_addr w)), Delete (Heap i)] @ map Delete ds @ [Delete (Heap t)]))
       \<and> (cls = ExOpenFuncWrapper_cls f fn \<or> cls = ForwardingExOpenFuncWrapper_cls f fn \<longrightarrow>
           (\<exists>w'. HandleResponse w (Heap t) (Some (Heap i)) rsp = Inr w'
              \<and> length (filter is_Stat (trace w')) =
                  (if IsOK s then Suc (length (filter is_Stat (trace w)))
                   else length (filter is_Stat (trace w)))))
       \<and> Heap (next_addr w) \<notin> set (Heap i # ds @ [Heap t])
       \<and> ExOpenFuncWrapper_nullref \<notin> set (Heap i # ds @ [Heap t])
       \<and> ForwardingExOpenFuncWrapper_nullref \<notin> set (Heap i # ds @ [Heap t])"
proof -
  have fresh: "Heap (next_addr w) \<notin> set (Heap i # ds @ [Heap t])"
    using h st unused owned_live [OF rs] by fastforce
  have static: "a \<notin> set (Heap i # ds @ [Heap t])" if "\<forall>n. a \<noteq> Heap n" for a
    using that rs by (auto elim!: owned_cases)
  note failure = open_wrapper_failure [OF h st _ rs]
  have success: "HandleResponse w (Heap t) (Some (Heap i)) rsp =
           Inr (disposed (call (snd (new_obj (log_event w (Stat f)) (ValueObj v))) fn
                            [Ref (Some (Heap i)) (Some (StatusObj s)),
                             Ref (Some (Heap (next_addr w))) (Some (ValueObj v))])
                  (Heap (next_addr w) # Heap i # ds @ [Heap t]))"
    if "cls = ExOpenFuncWrapper_cls f fn" "IsOK s" "r = Some v"
    using that open_wrapper_success_with_result(1) [OF h st _ rs _ unused] fl by simp
  have success_forwarding: "HandleResponse w (Heap t) (Some (Heap i)) rsp =
           Inr (disposed (call (snd (new_obj (log_event w (Stat f)) (ValueObj v))) fn
                            [Ref (Some (Heap i)) (Some (StatusObj s)),
                             Ref (Some (Heap (next_addr w))) (Some (ValueObj v)),
                             Ctx (OperationContext c)])
                  (Heap (next_addr w) # Heap i # ds @ [Heap t]))"
    if "cls = ForwardingExOpenFuncWrapper_cls f fn" "IsOK s" "r = Some v"
    using that open_wrapper_success_with_result(2) [OF h st _ rs _ unused] fl by simp
  have counted: "\<exists>w'. HandleResponse w (Heap t) (Some (Heap i)) rsp = Inr w'
              \<and> length (filter is_Stat (trace w')) =
                  (if IsOK s then Suc (length (filter is_Stat (trace w)))
                   else length (filter is_Stat (trace w)))"
    if cls: "cls = ExOpenFuncWrapper_cls f fn \<or> cls = ForwardingExOpenFuncWrapper_cls f fn"
  proof (cases "IsOK s")
    case False
    then show ?thesis
      using cls failure by (auto simp: no_Stat_among_deletes)
  next
    case True
    show ?thesis
    proof (cases r)
      case None
      with fl have "mem w f = Some (FileObj fs None)"
        by simp
      from open_wrapper_success_without_result [OF h st True rs this] cls True
      show ?thesis
        by (auto simp: no_Stat_among_deletes)
    next
      case (Some v)
      with fl have "mem w f = Some (FileObj fs (Some v))"
        by simp
      from open_wrapper_success_with_result [OF h st True rs this unused] cls True
      show ?thesis
        by (auto simp: no_Stat_among_deletes)
    qed
  qed
  show ?thesis
    using failure success success_forwarding counted fresh static [of ExOpenFuncWrapper_nullref]
      static [of ForwardingExOpenFuncWrapper_nullref]
    by simp
qed

theorem open_wrapper_fetches_only_on_success_witness:
  "let W = \<lparr>mem = [ExOpenFuncWrapper_nullref \<mapsto> ValueObj (0 :: int),
                    Heap 0 \<mapsto> HandlerObj (Some (Heap 1)) (ExOpenFuncWrapper_cls (Heap 2) 7),
                    Heap 1 \<mapsto> ArgsContainerObj (\<lambda>k. None),
                    Heap 2 \<mapsto> FileObj (XRootDStatus_ctor stOK 0) (Some 99),
                    Heap 3 \<mapsto> StatusObj (XRootDStatus_ctor stOK 0)],
             next_addr = 4, trace = []\<rparr>
   in mem W (Heap 0) = Some (HandlerObj (Some (Heap 1)) (ExOpenFuncWrapper_cls (Heap 2) 7))
    \<and> mem W (Heap 3) = Some (StatusObj (XRootDStatus_ctor stOK 0))
    \<and> owned_by_response W None = Some []
    \<and> mem W (Heap 2) = Some (FileObj (XRootDStatus_ctor stOK 0) (Some 99))
    \<and> mem W (Heap (next_addr W)) = None
    \<and> IsOK (XRootDStatus_ctor stOK 0)
    \<and> (\<exists>w'. HandleResponse W (Heap 0) (Some (Heap 3)) None = Inr w'
          \<and> trace w' =
               [Stat (Heap 2),
                Call 7 [Ref (Some (Heap 3)) (Some (StatusObj (XRootDStatus_ctor stOK 0))),
                        Ref (Some (Heap 4)) (Some (ValueObj 99))],
                Delete (Heap 4), Delete (Heap 3), Delete (Heap 0)])"
proof -
  define W :: "int world" where
    "W = \<lparr>mem = [ExOpenFuncWrapper_nullref \<mapsto> ValueObj (0 :: int),
                    Heap 0 \<mapsto> HandlerObj (Some (Heap 1)) (ExOpenFuncWrapper_cls (Heap 2) 7),
                    Heap 1 \<mapsto> ArgsContainerObj (\<lambda>k. None),
                    Heap 2 \<mapsto> FileObj (XRootDStatus_ctor stOK 0) (Some 99),
                    Heap 3 \<mapsto> StatusObj (XRootDStatus_ctor stOK 0)],
             next_addr = 4, trace = []\<rparr>"
  have h: "mem W (Heap 0) = Some (HandlerObj (Some (Heap 1)) (ExOpenFuncWrapper_cls (Heap 2) 7))"
    and st: "mem W (Heap 3) = Some (StatusObj (XRootDStatus_ctor stOK 0))"
    and rs: "owned_by_response W None = Some []"
    and fl: "mem W (Heap 2) = Some (FileObj (XRootDStatus_ctor stOK 0) (Some 99))"
    and unused: "mem W (Heap (next_addr W)) = None"
    and ok: "IsOK (XRootDStatus_ctor stOK 0)"
    by (simp_all add: W_def IsOK_def XRootDStatus_ctor_def)
  have n: "next_addr W = 4" and tr: "trace W = []"
    by (simp_all add: W_def)
  from open_wrapper_fetches_only_on_success [OF h st rs fl unused, where fn = 7]
  have "\<exists>w'. HandleResponse W (Heap 0) (Some (Heap 3)) None = Inr w'
          \<and> trace w' =
               [Stat (Heap 2),
                Call 7 [Ref (Some (Heap 3)) (Some (StatusObj (XRootDStatus_ctor stOK 0))),
                        Ref (Some (Heap 4)) (Some (ValueObj 99))],
                Delete (Heap 4), Delete (Heap 3), Delete (Heap 0)]"
    using ok unfolding n tr by auto
  with h st rs fl unused ok show ?thesis
    unfolding W_def [symmetric] Let_def by simp
qed

section \<open>The dispatch factory\<close>



section \<open>The forwarding container\<close>

text \<open>
  Claim C7. Let two handlers have the same container behind \<open>GetArgContainer\<close>, as two
  stages of a pipeline that the engine has linked. After the
  first has forwarded \<open>v\<close> under the type tag \<open>T\<close> and a bucket, the context of the second
  returns \<open>v\<close> for that tag and bucket. On the container itself, \<open>GetArg\<close> after \<open>SetArg\<close> of
  the same key returns the value set. A key that is not among those set since the container
  was created empty makes \<open>GetArg\<close> fail with a logic error, and so does the context of a
  handler whose container holds nothing under the key.
\<close>

theorem forwarded_value_is_read_back:
  assumes ga: "ForwardingHandler_GetArgContainer w (Heap a) = Inr (Some cp)"
    and gb: "ForwardingHandler_GetArgContainer w (Heap b) = Inr (Some cp)"
    and cont: "mem w cp = Some (ArgsContainerObj m)"
  shows "(\<exists>w1 ctx. ForwardingHandler_FwdArg w (Heap a) T v bucket = Inr w1
            \<and> ForwardingHandler_GetOperationContext w1 (Heap b) = Inr ctx
            \<and> OperationContext_GetArg w1 ctx T bucket = Inr v)
       \<and> ArgsContainer_GetArg (ArgsContainer_SetArg m T v bucket) T bucket = Inr v
       \<and> ((T', bucket') \<notin> fst ` set sets \<longrightarrow>
            ArgsContainer_GetArg
              (foldl (\<lambda>m ((T, bucket), v). ArgsContainer_SetArg m T v bucket) (\<lambda>k. None) sets)
              T' bucket' = Inl Logic_error)
       \<and> (m (T', bucket') = None \<longrightarrow>
            (\<exists>ctx. ForwardingHandler_GetOperationContext w (Heap b) = Inr ctx
               \<and> OperationContext_GetArg w ctx T' bucket' = Inl Logic_error))"
proof -
  obtain ka kb where a: "mem w (Heap a) = Some (HandlerObj (Some cp) ka)"
    and b: "mem w (Heap b) = Some (HandlerObj (Some cp) kb)"
    using ga gb
    by (auto simp: ForwardingHandler_GetArgContainer_def split: option.splits obj.splits)
  have d: "cp \<noteq> Heap a" "cp \<noteq> Heap b"
    using a b cont by auto
  let ?w1 = "w\<lparr>mem := (mem w)(cp \<mapsto> ArgsContainerObj (ArgsContainer_SetArg m T v bucket))\<rparr>"
  have 1: "ForwardingHandler_FwdArg w (Heap a) T v bucket = Inr ?w1"
    using a cont by (simp add: ForwardingHandler_FwdArg_def container_SetArg_def)
  have 2: "ForwardingHandler_GetOperationContext ?w1 (Heap b) = Inr (OperationContext (Some cp))"
    using b d by (simp add: ForwardingHandler_GetOperationContext_def)
  have 3: "OperationContext_GetArg ?w1 (OperationContext (Some cp)) T bucket = Inr v"
    by (simp add: OperationContext_GetArg_def ArgsContainer_GetArg_def ArgsContainer_SetArg_def)
  have 4: "ArgsContainer_GetArg (ArgsContainer_SetArg m T v bucket) T bucket = Inr v"
    by (simp add: ArgsContainer_GetArg_def ArgsContainer_SetArg_def)
  have 5: "ArgsContainer_GetArg
              (foldl (\<lambda>m ((T, bucket), v). ArgsContainer_SetArg m T v bucket) (\<lambda>k. None) sets)
              T' bucket' = Inl Logic_error"
    if "(T', bucket') \<notin> fst ` set sets"
    using that unset_key_stays_unset [of "\<lambda>k. None" T' bucket' sets]
    by (simp add: ArgsContainer_GetArg_def)
  have 6: "ForwardingHandler_GetOperationContext w (Heap b) = Inr (OperationContext (Some cp))"
    using b by (simp add: ForwardingHandler_GetOperationContext_def)
  have 7: "OperationContext_GetArg w (OperationContext (Some cp)) T' bucket' = Inl Logic_error"
    if "m (T', bucket') = None"
    using that cont by (simp add: OperationContext_GetArg_def ArgsContainer_GetArg_def)
  show ?thesis
    using 1 2 3 4 5 6 7 by simp
qed

theorem forwarded_value_is_read_back_witness:
  "let W = \<lparr>mem = [Heap 0 \<mapsto> HandlerObj (Some (Heap 1)) (SimpleFunctionWrapper_cls 7),
                    Heap 1 \<mapsto> ArgsContainerObj (\<lambda>k. None),
                    Heap 2 \<mapsto> HandlerObj (Some (Heap 1)) (SimpleForwardingFunctionWrapper_cls 8)],
             next_addr = 3, trace = []\<rparr> :: int world
   in ForwardingHandler_GetArgContainer W (Heap 0) = Inr (Some (Heap 1))
    \<and> ForwardingHandler_GetArgContainer W (Heap 2) = Inr (Some (Heap 1))
    \<and> mem W (Heap 1) = Some (ArgsContainerObj (\<lambda>k. None))
    \<and> (\<exists>w1 ctx. ForwardingHandler_FwdArg W (Heap 0) 0 42 1 = Inr w1
          \<and> ForwardingHandler_GetOperationContext w1 (Heap 2) = Inr ctx
          \<and> OperationContext_GetArg w1 ctx 0 1 = Inr 42)
    \<and> (\<exists>ctx. ForwardingHandler_GetOperationContext W (Heap 2) = Inr ctx
          \<and> OperationContext_GetArg W ctx 0 1 = Inl Logic_error)"
proof -
  define W :: "int world" where
    "W = \<lparr>mem = [Heap 0 \<mapsto> HandlerObj (Some (Heap 1)) (SimpleFunctionWrapper_cls 7),
                    Heap 1 \<mapsto> ArgsContainerObj (\<lambda>k. None),
                    Heap 2 \<mapsto> HandlerObj (Some (Heap 1)) (SimpleForwardingFunctionWrapper_cls 8)],
             next_addr = 3, trace = []\<rparr>"
  have a: "ForwardingHandler_GetArgContainer W (Heap 0) = Inr (Some (Heap 1))"
    and b: "ForwardingHandler_GetArgContainer W (Heap 2) = Inr (Some (Heap 1))"
    and cont: "mem W (Heap 1) = Some (ArgsContainerObj (\<lambda>k. None))"
    by (simp_all add: W_def ForwardingHandler_GetArgContainer_def)
  from forwarded_value_is_read_back [OF a b cont, of 0 42 1 0 1 "[]"]
  have "(\<exists>w1 ctx. ForwardingHandler_FwdArg W (Heap 0) 0 42 1 = Inr w1
          \<and> ForwardingHandler_GetOperationContext w1 (Heap 2) = Inr ctx
          \<and> OperationContext_GetArg w1 ctx 0 1 = Inr 42)
    \<and> (\<exists>ctx. ForwardingHandler_GetOperationContext W (Heap 2) = Inr ctx
          \<and> OperationContext_GetArg W ctx 0 1 = Inl Logic_error)"
    by blast
  with a b cont show ?thesis
    unfolding W_def [symmetric] Let_def by simp
qed

section \<open>The adapter for a plain response handler\<close>



section \<open>The base completion sink\<close>

text \<open>
  Claim C9. A handler whose dynamic class is \<open>ForwardingHandler\<close> itself is a terminal sink
  that does nothing but clean up. Its plain entry point frees the status, the response with
  its payload and then the handler; its entry point with hosts frees the host list first and
  then does what the plain entry point does in the world without the host list. The trace
  grows by \<open>Delete\<close> events only: no callable is invoked.
\<close>

theorem base_sink_is_terminal:
  assumes h: "mem w (Heap t) = Some (HandlerObj c ForwardingHandler_cls)"
    and st: "mem w (Heap i) = Some (StatusObj s)"
    and rs: "owned_by_response w rsp = Some ds"
    and hl: "mem w (Heap l) = Some (HostListObj hs)"
  shows "HandleResponse (disposed w [Heap l]) (Heap t) (Some (Heap i)) rsp =
           Inr (disposed w (Heap l # Heap i # ds @ [Heap t]))
       \<and> HandleResponse w (Heap t) (Some (Heap i)) rsp = Inr (disposed w (Heap i # ds @ [Heap t]))
       \<and> HandleResponseWithHosts w (Heap t) (Some (Heap i)) rsp (Some (Heap l)) =
           Inr (disposed w (Heap l # Heap i # ds @ [Heap t]))
       \<and> trace (disposed w (Heap l # Heap i # ds @ [Heap t])) =
           trace w @ [Delete (Heap l), Delete (Heap i)] @ map Delete ds @ [Delete (Heap t)]"
proof -
  have d: "Heap l \<notin> set ds" "l \<noteq> i" "l \<noteq> t"
    using h st hl owned_kind [OF rs] by fastforce+
  have plain: "HandleResponse w' (Heap t) (Some (Heap i)) rsp =
               Inr (disposed w' (Heap i # ds @ [Heap t]))"
    if "\<forall>a \<in> insert (Heap t) (insert (Heap i) (set ds)). mem w' a = mem w a" for w'
    using that h dispose_outcome_and_self [OF h _ st rs that]
    by (simp add: HandleResponse_def ForwardingHandler_HandleResponse_def)
  have 1: "HandleResponseWithHosts w (Heap t) (Some (Heap i)) rsp (Some (Heap l)) =
           seq (delete_ptr w (Some (Heap l))) (\<lambda>w1. HandleResponse w1 (Heap t) (Some (Heap i)) rsp)"
    using h by (simp add: HandleResponseWithHosts_def ForwardingHandler_HandleResponseWithHosts_def)
  have 2: "delete_ptr w (Some (Heap l)) = Inr (disposed w [Heap l])"
    using hl by (simp add: delete_ptr_live)
  have 3: "HandleResponse (disposed w [Heap l]) (Heap t) (Some (Heap i)) rsp =
           Inr (disposed w (Heap l # Heap i # ds @ [Heap t]))"
    using plain [of "disposed w [Heap l]"] d by auto
  show ?thesis
    using plain [of w] by (simp add: 1 2 3)
qed

theorem base_sink_is_terminal_witness:
  "let W = \<lparr>mem = [Heap 0 \<mapsto> HandlerObj (Some (Heap 1)) ForwardingHandler_cls,
                    Heap 1 \<mapsto> ArgsContainerObj (\<lambda>k. None),
                    Heap 2 \<mapsto> StatusObj (XRootDStatus_ctor stOK 0),
                    Heap 3 \<mapsto> AnyObjectObj (Some (Heap 4)),
                    Heap 4 \<mapsto> ValueObj (42 :: int),
                    Heap 5 \<mapsto> HostListObj [''host'']],
             next_addr = 6, trace = []\<rparr>
   in mem W (Heap 0) = Some (HandlerObj (Some (Heap 1)) ForwardingHandler_cls)
    \<and> mem W (Heap 2) = Some (StatusObj (XRootDStatus_ctor stOK 0))
    \<and> owned_by_response W (Some (Heap 3)) = Some [Heap 4, Heap 3]
    \<and> mem W (Heap 5) = Some (HostListObj [''host''])
    \<and> HandleResponseWithHosts W (Heap 0) (Some (Heap 2)) (Some (Heap 3)) (Some (Heap 5)) =
        Inr (disposed W [Heap 5, Heap 2, Heap 4, Heap 3, Heap 0])
    \<and> trace (disposed W [Heap 5, Heap 2, Heap 4, Heap 3, Heap 0]) =
        [Delete (Heap 5), Delete (Heap 2), Delete (Heap 4), Delete (Heap 3), Delete (Heap 0)]"
proof -
  define W :: "int world" where
    "W = \<lparr>mem = [Heap 0 \<mapsto> HandlerObj (Some (Heap 1)) ForwardingHandler_cls,
                    Heap 1 \<mapsto> ArgsContainerObj (\<lambda>k. None),
                    Heap 2 \<mapsto> StatusObj (XRootDStatus_ctor stOK 0),
                    Heap 3 \<mapsto> AnyObjectObj (Some (Heap 4)),
                    Heap 4 \<mapsto> ValueObj (42 :: int),
                    Heap 5 \<mapsto> HostListObj [''host'']],
             next_addr = 6, trace = []\<rparr>"
  have h: "mem W (Heap 0) = Some (HandlerObj (Some (Heap 1)) ForwardingHandler_cls)"
    and st: "mem W (Heap 2) = Some (StatusObj (XRootDStatus_ctor stOK 0))"
    and rs: "owned_by_response W (Some (Heap 3)) = Some [Heap 4, Heap 3]"
    and hl: "mem W (Heap 5) = Some (HostListObj [''host''])"
    by (simp_all add: W_def)
  have tr: "trace W = []"
    by (simp add: W_def)
  from base_sink_is_terminal [OF h st rs hl]
  have "HandleResponseWithHosts W (Heap 0) (Some (Heap 2)) (Some (Heap 3)) (Some (Heap 5)) =
          Inr (disposed W [Heap 5, Heap 2, Heap 4, Heap 3, Heap 0])"
    by simp
  with h st rs hl tr show ?thesis
    unfolding W_def [symmetric] Let_def by simp
qed

text \<open>
  Claim C10. When the open status is a success, the status argument of the callable is the
  open status itself, whatever status \<open>fs\<close> the metadata fetch returns and whether or not
  the fetch allocates a result \<open>r\<close>: the value returned by \<open>Stat\<close> does not occur in the
  outcome. The second argument is bound to whatever the pointer \<open>info\<close> holds after the
  fetch: the allocated result, or the null pointer it was initialised with when the fetch
  allocated nothing, in which case nothing is deleted for it.
\<close>

theorem open_status_passed_whatever_the_fetch_returns:
  assumes h: "mem w (Heap t) = Some (HandlerObj c cls)"
    and st: "mem w (Heap i) = Some (StatusObj s)" and ok: "IsOK s"
    and rs: "owned_by_response w rsp = Some ds"
    and fl: "mem w f = Some (FileObj fs r)"
    and unused: "mem w (Heap (next_addr w)) = None"
  shows "(cls = ExOpenFuncWrapper_cls f fn \<longrightarrow>
           (\<exists>w'. HandleResponse w (Heap t) (Some (Heap i)) rsp = Inr w'
              \<and> trace w' = trace w @
                   [Stat f,
                    Call fn [Ref (Some (Heap i)) (Some (StatusObj s)),
                             (case r of None \<Rightarrow> Ref None None
                              | Some v \<Rightarrow> Ref (Some (Heap (next_addr w))) (Some (ValueObj v)))]] @
                   map Delete ((case r of None \<Rightarrow> [] | Some v \<Rightarrow> [Heap (next_addr w)]) @
                               Heap i # ds @ [Heap t])))
       \<and> (cls = ForwardingExOpenFuncWrapper_cls f fn \<longrightarrow>
           (\<exists>w'. HandleResponse w (Heap t) (Some (Heap i)) rsp = Inr w'
              \<and> trace w' = trace w @
                   [Stat f,
                    Call fn [Ref (Some (Heap i)) (Some (StatusObj s)),
                             (case r of None \<Rightarrow> Ref None None
                              | Some v \<Rightarrow> Ref (Some (Heap (next_addr w))) (Some (ValueObj v))),
                             Ctx (OperationContext c)]] @
                   map Delete ((case r of None \<Rightarrow> [] | Some v \<Rightarrow> [Heap (next_addr w)]) @
                               Heap i # ds @ [Heap t])))"
proof (cases r)
  case None
  with fl have fl': "mem w f = Some (FileObj fs None)"
    by simp
  show ?thesis
    using open_wrapper_success_without_result [OF h st ok rs fl'] None by simp
next
  case (Some v)
  with fl have fl': "mem w f = Some (FileObj fs (Some v))"
    by simp
  show ?thesis
    using open_wrapper_success_with_result [OF h st ok rs fl' unused] Some by simp
qed

theorem open_status_passed_whatever_the_fetch_returns_witness:
  "let W = \<lparr>mem = [ExOpenFuncWrapper_nullref \<mapsto> ValueObj (0 :: int),
                    Heap 0 \<mapsto> HandlerObj (Some (Heap 1)) (ExOpenFuncWrapper_cls (Heap 2) 7),
                    Heap 1 \<mapsto> ArgsContainerObj (\<lambda>k. None),
                    Heap 2 \<mapsto> FileObj (XRootDStatus_ctor stError 3) None,
                    Heap 3 \<mapsto> StatusObj (XRootDStatus_ctor stOK 0)],
             next_addr = 4, trace = []\<rparr>
   in mem W (Heap 0) = Some (HandlerObj (Some (Heap 1)) (ExOpenFuncWrapper_cls (Heap 2) 7))
    \<and> mem W (Heap 3) = Some (StatusObj (XRootDStatus_ctor stOK 0))
    \<and> IsOK (XRootDStatus_ctor stOK 0)
    \<and> owned_by_response W None = Some []
    \<and> mem W (Heap 2) = Some (FileObj (XRootDStatus_ctor stError 3) None)
    \<and> \<not> IsOK (XRootDStatus_ctor stError 3)
    \<and> mem W (Heap (next_addr W)) = None
    \<and> (\<exists>w'. HandleResponse W (Heap 0) (Some (Heap 3)) None = Inr w'
          \<and> trace w' =
               [Stat (Heap 2),
                Call 7 [Ref (Some (Heap 3)) (Some (StatusObj (XRootDStatus_ctor stOK 0))),
                        Ref None None],
                Delete (Heap 3), Delete (Heap 0)])"
proof -
  define W :: "int world" where
    "W = \<lparr>mem = [ExOpenFuncWrapper_nullref \<mapsto> ValueObj (0 :: int),
                    Heap 0 \<mapsto> HandlerObj (Some (Heap 1)) (ExOpenFuncWrapper_cls (Heap 2) 7),
                    Heap 1 \<mapsto> ArgsContainerObj (\<lambda>k. None),
                    Heap 2 \<mapsto> FileObj (XRootDStatus_ctor stError 3) None,
                    Heap 3 \<mapsto> StatusObj (XRootDStatus_ctor stOK 0)],
             next_addr = 4, trace = []\<rparr>"
  have h: "mem W (Heap 0) = Some (HandlerObj (Some (Heap 1)) (ExOpenFuncWrapper_cls (Heap 2) 7))"
    and st: "mem W (Heap 3) = Some (StatusObj (XRootDStatus_ctor stOK 0))"
    and ok: "IsOK (XRootDStatus_ctor stOK 0)"
    and rs: "owned_by_response W None = Some []"
    and fl: "mem W (Heap 2) = Some (FileObj (XRootDStatus_ctor stError 3) None)"
    and bad: "\<not> IsOK (XRootDStatus_ctor stError 3)"
    and unused: "mem W (Heap (next_addr W)) = None"
    by (simp_all add: W_def IsOK_def XRootDStatus_ctor_def stOK_def stError_def)
  have tr: "trace W = []"
    by (simp add: W_def)
  from open_status_passed_whatever_the_fetch_returns [OF h st ok rs fl unused, where fn = 7]
  have "\<exists>w'. HandleResponse W (Heap 0) (Some (Heap 3)) None = Inr w'
          \<and> trace w' =
               [Stat (Heap 2),
                Call 7 [Ref (Some (Heap 3)) (Some (StatusObj (XRootDStatus_ctor stOK 0))),
                        Ref None None],
                Delete (Heap 3), Delete (Heap 0)]"
    unfolding tr by auto
  with h st ok rs fl bad unused show ?thesis
    unfolding W_def [symmetric] Let_def by simp
qed

end
